theory Spec2Isabelle
  imports Main "HOL-Library.AList"
begin

section \<open>Python strings\<close>

text \<open>
  A Python \<open>str\<close> is modelled as a \<open>string\<close>; a \<open>char\<close> stands for the code point
  of the same number (0 to 255).  A file on disk is a sequence of bytes, also a \<open>string\<close>:
  the byte of a number is read as the code point of that number and written back as that
  byte (the files are ASCII, or the encoding is Latin-1).  Console output (\<open>print\<close>) is
  not modelled.
\<close>

definition is_space :: "char \<Rightarrow> bool" where
  \<comment> \<open>\<open>str.isspace\<close>, also the class \<open>\s\<close> of \<open>re\<close> on \<open>str\<close> patterns\<close>
  "is_space c = (let n = (of_char c :: nat) in (9 \<le> n \<and> n \<le> 13) \<or> (28 \<le> n \<and> n \<le> 32) \<or> n = 133 \<or> n = 160)"

definition ascii_digit :: "char \<Rightarrow> bool" where
  "ascii_digit c = (let n = (of_char c :: nat) in 48 \<le> n \<and> n \<le> 57)"

definition octal_digit :: "char \<Rightarrow> bool" where
  "octal_digit c = (let n = (of_char c :: nat) in 48 \<le> n \<and> n \<le> 55)"

definition ascii_letter :: "char \<Rightarrow> bool" where
  "ascii_letter c = (let n = (of_char c :: nat) in (65 \<le> n \<and> n \<le> 90) \<or> (97 \<le> n \<and> n \<le> 122))"

definition is_word :: "char \<Rightarrow> bool" where
  \<comment> \<open>the class \<open>\w\<close> of \<open>re\<close> on \<open>str\<close> patterns: alphanumeric code points and the underscore\<close>
  "is_word c = (let n = (of_char c :: nat) in
     ascii_digit c \<or> ascii_letter c \<or> n = 95 \<or> n = 170 \<or> n = 178 \<or> n = 179 \<or> n = 181 \<or>
     n = 185 \<or> n = 186 \<or> (188 \<le> n \<and> n \<le> 190) \<or> (192 \<le> n \<and> n \<le> 214) \<or>
     (216 \<le> n \<and> n \<le> 246) \<or> 248 \<le> n)"

fun split_ws_acc :: "string \<Rightarrow> string \<Rightarrow> string list" where
  "split_ws_acc cur [] = (if cur = [] then [] else [cur])"
| "split_ws_acc cur (c # cs) =
     (if is_space c then (if cur = [] then split_ws_acc [] cs else cur # split_ws_acc [] cs)
      else split_ws_acc (cur @ [c]) cs)"

definition split_ws :: "string \<Rightarrow> string list" where
  \<comment> \<open>\<open>s.split()\<close>: the maximal runs of non-whitespace\<close>
  "split_ws s = split_ws_acc [] s"

definition strip_is_empty :: "string \<Rightarrow> bool" where
  \<comment> \<open>\<open>s.strip() == ""\<close>\<close>
  "strip_is_empty s = list_all is_space s"

fun split_nl_acc :: "string \<Rightarrow> string \<Rightarrow> string list" where
  "split_nl_acc cur [] = [cur]"
| "split_nl_acc cur (c # cs) =
     (if c = CHR 0x0A then cur # split_nl_acc [] cs else split_nl_acc (cur @ [c]) cs)"

definition split_nl :: "string \<Rightarrow> string list" where
  \<comment> \<open>\<open>s.split("\n")\<close>\<close>
  "split_nl s = split_nl_acc [] s"

fun join :: "string \<Rightarrow> string list \<Rightarrow> string" where
  \<comment> \<open>\<open>sep.join(xs)\<close>\<close>
  "join sep [] = []"
| "join sep [x] = x"
| "join sep (x # y # ys) = x @ sep @ join sep (y # ys)"

fun ends_with :: "string \<Rightarrow> string \<Rightarrow> bool" where
  "ends_with s suf = (length suf \<le> length s \<and> drop (length s - length suf) s = suf)"

fun contains :: "string \<Rightarrow> string \<Rightarrow> bool" where
  \<comment> \<open>\<open>sub in s\<close>\<close>
  "contains sub [] = (sub = [])"
| "contains sub (c # cs) = (take (length sub) (c # cs) = sub \<or> contains sub cs)"

section \<open>Errors, the file tree and the outside world\<close>

datatype error =
    IndexError
  | KeyError
  | ReError
  | RequestError
  | CalledProcessError
  | UnsupportedPattern

datatype event =
    Read string
  | Write string string
  | Query string
  | PipList "string option" bool

datatype platform = Posix | Windows

text \<open>
  The files are opened in text mode with the default \<open>newline=None\<close>.  On reading, the
  byte pairs CR LF and the single bytes CR become the character LF (universal newlines).
  On writing, every character LF becomes \<open>os.linesep\<close>: LF on POSIX, CR LF on Windows.
  The field \<open>content\<close> of the world holds the bytes of every file.
\<close>

record world =
  walk :: "string \<Rightarrow> string list"
  content :: "string \<Rightarrow> string"
  platform :: platform
  log :: "event list"

definition os_linesep :: "platform \<Rightarrow> string" where
  "os_linesep p = (case p of Posix \<Rightarrow> [CHR 0x0A] | Windows \<Rightarrow> [CHR 0x0D, CHR 0x0A])"

fun universal_newlines :: "string \<Rightarrow> string" where
  "universal_newlines [] = []"
| "universal_newlines [c] = (if c = CHR 0x0D then [CHR 0x0A] else [c])"
| "universal_newlines (c # d # r) =
     (if c = CHR 0x0D
      then (if d = CHR 0x0A then CHR 0x0A # universal_newlines r
            else CHR 0x0A # universal_newlines (d # r))
      else c # universal_newlines (d # r))"

definition translate_newlines :: "platform \<Rightarrow> string \<Rightarrow> string" where
  "translate_newlines p file_text =
     concat (map (\<lambda>c. if c = CHR 0x0A then os_linesep p else [c]) file_text)"

definition external_project_filepaths :: "world \<Rightarrow> string \<Rightarrow> string list" where
  "external_project_filepaths w directory = walk w directory"

definition read_file :: "string \<Rightarrow> world \<Rightarrow> string \<times> world" where
  \<comment> \<open>\<open>open(filepath).read()\<close>\<close>
  "read_file filepath w =
     (universal_newlines (content w filepath), w\<lparr>log := log w @ [Read filepath]\<rparr>)"

definition write_file :: "string \<Rightarrow> string \<Rightarrow> world \<Rightarrow> world" where
  \<comment> \<open>\<open>open(filepath, "w").write(file_text)\<close>: the file is truncated and written whole\<close>
  "write_file filepath file_text w =
     w\<lparr>content := (content w)(filepath := translate_newlines (platform w) file_text),
       log := log w @ [Write filepath file_text]\<rparr>"

definition text_of :: "world \<Rightarrow> string \<Rightarrow> string" where
  \<comment> \<open>the text that reading the file gives\<close>
  "text_of w filepath = fst (read_file filepath w)"

section \<open>Delimiter validation\<close>

text \<open>
  The hint pattern, with \<open>re.MULTILINE\<close>, is
  \<^verbatim>\<open>^\s*# \[(\/?[\w\-\])\])]+)\]$\<close>.
  A match starts at the beginning of a line, skips all whitespace (newlines included),
  reads \<^verbatim>\<open># [\<close>, an optional slash and the longest run of characters of the class;
  since the closing bracket is in the class and must be followed by the end of a line, the
  run has at least two characters, ends with the bracket and is followed by a newline or
  by the end of the text.  The group is the slash and the run without its last bracket.
\<close>

definition hint_class :: "char \<Rightarrow> bool" where
  "hint_class c = (is_word c \<or> c = CHR ''-'' \<or> c = CHR '']'' \<or> c = CHR '')'')"

definition match_hint :: "string \<Rightarrow> (string \<times> string) option" where
  "match_hint s =
     (let s1 = dropWhile is_space s in
      if take 3 s1 = ''# [''
      then let s2 = drop 3 s1;
               slash = (if take 1 s2 = ''/'' then ''/'' else []);
               s3 = drop (length slash) s2;
               run = takeWhile hint_class s3;
               rest = dropWhile hint_class s3
           in if 2 \<le> length run \<and> last run = CHR '']'' \<and> (rest = [] \<or> hd rest = CHR 0x0A)
              then Some (slash @ butlast run, rest)
              else None
      else None)"

lemma match_hint_shorter: "match_hint s = Some (g, rest) \<Longrightarrow> length rest < length s"
proof -
  assume a: "match_hint s = Some (g, rest)"
  define s1 where "s1 = dropWhile is_space s"
  define s2 where "s2 = drop 3 s1"
  define slash where "slash = (if take 1 s2 = ''/'' then ''/'' else [])"
  define s3 where "s3 = drop (length slash) s2"
  from a have t: "take 3 s1 = ''# [''" and r: "rest = dropWhile hint_class s3"
    unfolding match_hint_def s1_def s2_def slash_def s3_def
    by (auto simp: Let_def split: if_splits)
  have "length s1 \<le> length s" unfolding s1_def by (rule length_dropWhile_le)
  moreover from t have "3 \<le> length s1" by (cases s1; cases "tl s1"; cases "tl (tl s1)") auto
  moreover have "length s3 \<le> length s2" unfolding s3_def by simp
  moreover have "length s2 = length s1 - 3" unfolding s2_def by simp
  moreover have "length rest \<le> length s3" unfolding r by (rule length_dropWhile_le)
  ultimately show ?thesis by arith
qed

function findall_hints_from :: "bool \<Rightarrow> string \<Rightarrow> string list" where
  "findall_hints_from bol [] = []"
| "findall_hints_from bol (c # cs) =
     (if bol
      then (case match_hint (c # cs) of
              Some (g, rest) \<Rightarrow> g # findall_hints_from False rest
            | None \<Rightarrow> findall_hints_from (c = CHR 0x0A) cs)
      else findall_hints_from (c = CHR 0x0A) cs)"
  by pat_completeness auto
termination
  by (relation "measure (\<lambda>(bol, s). length s)") (auto dest: match_hint_shorter)

definition findall_hints :: "string \<Rightarrow> string list" where
  \<comment> \<open>\<open>re.findall(regex, file_text, flags=re.MULTILINE)\<close>\<close>
  "findall_hints file_text = findall_hints_from True file_text"

fun pairwise :: "'a list \<Rightarrow> ('a \<times> 'a) list" where
  "pairwise (a # b # r) = (a, b) # pairwise r"
| "pairwise _ = []"

fun check_pairs ::
  "string \<Rightarrow> (string \<times> string) list \<Rightarrow> (string \<times> string \<times> string) list
   \<Rightarrow> (string \<times> string \<times> string) list" where
  "check_pairs filepath [] mismatches = mismatches"
| "check_pairs filepath ((first, second) # ps) mismatches =
     (if first \<noteq> drop 1 second
      then check_pairs filepath ps (mismatches @ [(filepath, first, drop 1 second)])
      else check_pairs filepath ps mismatches)"

fun validate_files ::
  "string list \<Rightarrow> (string \<times> string \<times> string) list \<Rightarrow> world
   \<Rightarrow> (string \<times> string \<times> string) list \<times> world" where
  "validate_files [] mismatches w = (mismatches, w)"
| "validate_files (filepath # fps) mismatches w =
     (let (file_text, w1) = read_file filepath w;
          hint_pairs = findall_hints file_text
      in validate_files fps (check_pairs filepath (pairwise hint_pairs) mismatches) w1)"

definition validate_external_project_python_package_hints ::
  "string \<Rightarrow> world \<Rightarrow> (string \<times> string \<times> string) list \<times> world" where
  "validate_external_project_python_package_hints directory w =
     validate_files (external_project_filepaths w directory) [] w"

fun mismatch_line :: "string \<times> string \<times> string \<Rightarrow> string" where
  "mismatch_line (filepath, first, second) =
     filepath @ [CHR 0x0A] @ ''  '' @ first @ '' != '' @ second"

definition hint_validation_mismatch_summary :: "(string \<times> string \<times> string) list \<Rightarrow> string" where
  "hint_validation_mismatch_summary mismatches = join [CHR 0x0A] (map mismatch_line mismatches)"

section \<open>Parsing the package listing\<close>

type_synonym packages = "(string \<times> (string \<times> string)) list"

text \<open>
  A Python \<open>dict\<close> keeps its keys in insertion order and assigning to a key that is present
  keeps the key's place: this is \<^const>\<open>AList.update\<close> on an association list.
\<close>

fun parse_rows :: "string list \<Rightarrow> packages \<Rightarrow> error + packages" where
  "parse_rows [] packages = Inr packages"
| "parse_rows (line # lines) packages =
     (if strip_is_empty line then Inr packages
      else (case split_ws line of
              package_name # current_version # others \<Rightarrow>
                (let latest_version = (case others of [] \<Rightarrow> current_version | third # _ \<Rightarrow> third)
                 in parse_rows lines
                      (AList.update package_name (current_version, latest_version) packages))
            | _ \<Rightarrow> Inl IndexError))"

definition parse_pip_list_output :: "string list \<Rightarrow> error + packages" where
  \<comment> \<open>the rows are those of \<open>range(2, len(packages_to_update) - 1)\<close>\<close>
  "parse_pip_list_output packages_to_update =
     parse_rows (drop 2 (take (length packages_to_update - 1) packages_to_update)) []"

section \<open>Selecting release files and generating the block text\<close>

record release_file =
  python_version :: string
  packagetype :: string
  filename :: string
  digest_sha256 :: string

datatype index_reply =
    Unreachable
  | Json "(string \<rightharpoonup> release_file list) option"

text \<open>
  \<open>Json None\<close> is a reply without the key \<open>releases\<close>; \<open>Json (Some releases)\<close> carries
  the value under that key, from version to release files.
\<close>

record env =
  pip_output :: "string option \<Rightarrow> bool \<Rightarrow> string option"
  pypi :: "string \<Rightarrow> index_reply"
  version_major :: nat
  version_minor :: nat
  default_directory :: string

fun str_nat :: "nat \<Rightarrow> string" where
  "str_nat n = (if n < 10 then [char_of (48 + n)] else str_nat (n div 10) @ [char_of (48 + n mod 10)])"

definition interpreter_cpython_tag :: "env \<Rightarrow> string" where
  "interpreter_cpython_tag e = ''cp'' @ str_nat (version_major e) @ str_nat (version_minor e)"

definition indentation :: nat where
  "indentation = 2"

definition newline :: char where
  "newline = CHR 0x0A"

definition backslash :: char where
  "backslash = CHR 0x5C"

definition select_file ::
  "string \<Rightarrow> release_file \<Rightarrow> string list \<times> string list \<Rightarrow> string list \<times> string list" where
  \<comment> \<open>the body of the loop over \<open>desired_version_files\<close>; a \<open>continue\<close> leaves both lists as they are\<close>
  "select_file cpython_tag release_file acc =
     (if python_version release_file \<notin> set [''py3'', ''py2.py3'', cpython_tag]
         \<and> \<not> contains ''abi3'' (filename release_file)
      then acc
      else if packagetype release_file \<noteq> ''bdist_wheel''
      then acc
      else if \<not> (ends_with (filename release_file) ''py3-none-any.whl''
                 \<or> ends_with (filename release_file) ''64.whl''
                 \<or> ends_with (filename release_file) ''universal2.whl'')
      then acc
      else (fst acc @ [replicate indentation (CHR '' '') @ ''#  - '' @ filename release_file],
            snd acc @ [''--hash=sha256:'' @ digest_sha256 release_file]))"

fun select_files ::
  "string \<Rightarrow> release_file list \<Rightarrow> string list \<times> string list \<Rightarrow> string list \<times> string list" where
  "select_files cpython_tag [] acc = acc"
| "select_files cpython_tag (release_file # rs) acc =
     select_files cpython_tag rs (select_file cpython_tag release_file acc)"

definition block_text :: "string \<Rightarrow> string \<Rightarrow> string list \<Rightarrow> string list \<Rightarrow> string" where
  "block_text package_name desired_version filenames hashes =
     (let simple_package_version =
            replicate indentation (CHR '' '') @ package_name @ ''=='' @ desired_version @ '' '';
          hashes_joiner_text =
            [CHR '' '', backslash, newline] @ replicate (length simple_package_version) (CHR '' '');
          all_hashes = simple_package_version @ join hashes_joiner_text hashes
      in if length filenames > 1
         then join [newline]
                ((replicate indentation (CHR '' '') @ ''# Hashes correspond to the following packages:'')
                 # filenames)
              @ [newline] @ all_hashes
         else all_hashes)"

fun select_packages ::
  "env \<Rightarrow> string \<Rightarrow> packages \<Rightarrow> (string \<times> string) list \<Rightarrow> world
   \<Rightarrow> (error + (string \<times> string) list) \<times> world" where
  "select_packages e cpython_tag [] lines_to_write w = (Inr lines_to_write, w)"
| "select_packages e cpython_tag ((package_name, (current_version, latest_version)) # ps)
     lines_to_write w =
     (if package_name \<in> set [''vtk'', ''simpleitk'']
      then select_packages e cpython_tag ps lines_to_write w
      else
        (let w1 = w\<lparr>log := log w @ [Query package_name]\<rparr> in
         case pypi e package_name of
           Unreachable \<Rightarrow> (Inl RequestError, w1)
         | Json None \<Rightarrow> (Inl KeyError, w1)
         | Json (Some releases) \<Rightarrow>
             (let desired_version =
                    (if cpython_tag = interpreter_cpython_tag e then latest_version
                     else current_version);
                  desired_version_files =
                    (case releases desired_version of None \<Rightarrow> [] | Some fs \<Rightarrow> fs);
                  (filenames, hashes) = select_files cpython_tag desired_version_files ([], [])
              in if hashes = []
                 then select_packages e cpython_tag ps lines_to_write w1
                 else select_packages e cpython_tag ps
                        (AList.update package_name
                           (block_text package_name desired_version filenames hashes @ [newline])
                           lines_to_write)
                        w1)))"

section \<open>Substituting the blocks\<close>

subsection \<open>The replacement template of \<open>re.sub\<close>\<close>

text \<open>
  \<open>re.sub\<close> reads its replacement as a template: a backslash starts an escape.  The
  pattern has two groups, so the group references 0, 1 and 2 are valid.  Every failure of
  the template's parser is \<^const>\<open>ReError\<close> (an unknown group name is an \<open>IndexError\<close>
  in Python).  A group name is read as Python 3.12 reads it: ASCII digits only.
\<close>

datatype tpl_item = TChar char | TGroup nat

definition tpl_cons :: "tpl_item \<Rightarrow> error + tpl_item list \<Rightarrow> error + tpl_item list" where
  "tpl_cons i r = (case r of Inl e \<Rightarrow> Inl e | Inr is \<Rightarrow> Inr (i # is))"

definition digit_value :: "char \<Rightarrow> nat" where
  "digit_value c = of_char c - 48"

definition decimal_value :: "string \<Rightarrow> nat" where
  "decimal_value ds = foldl (\<lambda>a d. 10 * a + digit_value d) 0 ds"

definition octal_value :: "string \<Rightarrow> nat" where
  "octal_value ds = foldl (\<lambda>a d. 8 * a + digit_value d) 0 ds"

definition escape_char :: "char \<Rightarrow> char option" where
  \<comment> \<open>the escapes \<open>\a \b \f \n \r \t \v \\\<close>\<close>
  "escape_char c =
     (if c = CHR ''a'' then Some (CHR 0x07) else if c = CHR ''b'' then Some (CHR 0x08)
      else if c = CHR ''f'' then Some (CHR 0x0C) else if c = CHR ''n'' then Some (CHR 0x0A)
      else if c = CHR ''r'' then Some (CHR 0x0D) else if c = CHR ''t'' then Some (CHR 0x09)
      else if c = CHR ''v'' then Some (CHR 0x0B) else if c = backslash then Some backslash
      else None)"

definition group_ref :: "nat \<Rightarrow> error + tpl_item list \<Rightarrow> error + tpl_item list" where
  \<comment> \<open>a reference to a group that the pattern does not have is an error\<close>
  "group_ref n r = (if n \<le> 2 then tpl_cons (TGroup n) r else Inl ReError)"

function parse_template :: "string \<Rightarrow> error + tpl_item list" where
  "parse_template [] = Inr []"
| "parse_template [c] = (if c = backslash then Inl ReError else Inr [TChar c])"
| "parse_template (c # d # r) =
     (if c \<noteq> backslash then tpl_cons (TChar c) (parse_template (d # r))
      else if d = CHR ''g'' then
        (if take 1 r \<noteq> [CHR ''<''] then Inl ReError
         else let name = takeWhile (\<lambda>x. x \<noteq> CHR ''>'') (drop 1 r);
                  after = dropWhile (\<lambda>x. x \<noteq> CHR ''>'') (drop 1 r)
              in if after = [] \<or> name = [] then Inl ReError
                 else if list_all ascii_digit name
                 then group_ref (decimal_value name) (parse_template (drop 1 after))
                 else Inl ReError)
      else if d = CHR ''0'' then
        (if r \<noteq> [] \<and> octal_digit (hd r)
         then (if tl r \<noteq> [] \<and> octal_digit (hd (tl r))
               then tpl_cons (TChar (char_of (octal_value [hd r, hd (tl r)])))
                      (parse_template (tl (tl r)))
               else tpl_cons (TChar (char_of (octal_value [hd r]))) (parse_template (tl r)))
         else tpl_cons (TChar (CHR 0x00)) (parse_template r))
      else if ascii_digit d then
        (if r \<noteq> [] \<and> ascii_digit (hd r)
         then (if octal_digit d \<and> octal_digit (hd r) \<and> tl r \<noteq> [] \<and> octal_digit (hd (tl r))
               then (if octal_value [d, hd r, hd (tl r)] > 255 then Inl ReError
                     else tpl_cons (TChar (char_of (octal_value [d, hd r, hd (tl r)])))
                            (parse_template (tl (tl r))))
               else group_ref (decimal_value [d, hd r]) (parse_template (tl r)))
         else group_ref (digit_value d) (parse_template r))
      else (case escape_char d of
              Some x \<Rightarrow> tpl_cons (TChar x) (parse_template r)
            | None \<Rightarrow>
                if ascii_letter d then Inl ReError
                else tpl_cons (TChar c) (tpl_cons (TChar d) (parse_template r))))"
  by pat_completeness auto
termination
proof (relation "measure length")
  fix c d :: char and r name after :: string
  assume "after = dropWhile (\<lambda>x. x \<noteq> CHR ''>'') (drop 1 r)"
  then have "length after \<le> length r"
    using length_dropWhile_le [of "\<lambda>x. x \<noteq> CHR ''>''" "drop 1 r"] by simp
  then show "(drop 1 after, c # d # r) \<in> measure length" by simp
qed (auto simp: less_Suc_eq_le le_SucI)

fun expand_template :: "tpl_item list \<Rightarrow> string \<times> string \<times> string \<Rightarrow> string" where
  \<comment> \<open>the groups are the whole match, the opening tag and the closing tag\<close>
  "expand_template [] g = []"
| "expand_template (TChar c # is) g = c # expand_template is g"
| "expand_template (TGroup n # is) (g0, g1, g2) =
     (if n = 0 then g0 else if n = 1 then g1 else g2) @ expand_template is (g0, g1, g2)"

subsection \<open>The block pattern\<close>

text \<open>
  The pattern is \<^verbatim>\<open>(# \[NAME\]).*?(# \[/NAME\])\<close> with \<open>re.DOTALL\<close>, the package name
  standing in it as it is.  A character of the name that is not special to \<open>re\<close> matches
  itself and a dot matches any character.  A name with another special character
  (one of \<^verbatim>\<open>\ [ { ( ) * + ? ^ $ |\<close>) is outside the model: \<^const>\<open>UnsupportedPattern\<close>.
\<close>

datatype item = Lit char | AnyChar

definition regex_special :: "char \<Rightarrow> bool" where
  "regex_special c = (c \<in> set ''.[{()*+?^$|'' \<or> c = backslash)"

definition supported_name :: "string \<Rightarrow> bool" where
  "supported_name name = list_all (\<lambda>c. c = CHR ''.'' \<or> \<not> regex_special c) name"

definition name_items :: "string \<Rightarrow> item list" where
  "name_items name = map (\<lambda>c. if c = CHR ''.'' then AnyChar else Lit c) name"

definition open_pattern :: "string \<Rightarrow> item list" where
  "open_pattern name = map Lit ''# ['' @ name_items name @ [Lit (CHR '']'')]"

definition close_pattern :: "string \<Rightarrow> item list" where
  "close_pattern name = map Lit ''# [/'' @ name_items name @ [Lit (CHR '']'')]"

fun item_ok :: "item \<Rightarrow> char \<Rightarrow> bool" where
  "item_ok (Lit x) c = (x = c)"
| "item_ok AnyChar c = True"

fun pmatch :: "item list \<Rightarrow> string \<Rightarrow> string option" where
  \<comment> \<open>the pattern's items against the beginning of the text; the result is what follows\<close>
  "pmatch [] s = Some s"
| "pmatch (i # is) [] = None"
| "pmatch (i # is) (c # cs) = (if item_ok i c then pmatch is cs else None)"

fun find_close :: "item list \<Rightarrow> string \<Rightarrow> (string \<times> string) option" where
  \<comment> \<open>the lazy \<^verbatim>\<open>.*?\<close>: as few characters as possible, then the closing tag\<close>
  "find_close cl [] = (case pmatch cl [] of Some r \<Rightarrow> Some ([], r) | None \<Rightarrow> None)"
| "find_close cl (c # cs) =
     (case pmatch cl (c # cs) of
        Some r \<Rightarrow> Some ([], r)
      | None \<Rightarrow> (case find_close cl cs of Some (mid, r) \<Rightarrow> Some (c # mid, r) | None \<Rightarrow> None))"

definition match_at ::
  "item list \<Rightarrow> item list \<Rightarrow> string \<Rightarrow> ((string \<times> string \<times> string) \<times> string) option" where
  \<comment> \<open>a match starting here: its groups (whole match, opening tag, closing tag) and the rest\<close>
  "match_at op cl s =
     (case pmatch op s of
        None \<Rightarrow> None
      | Some a \<Rightarrow>
          (case find_close cl a of
             None \<Rightarrow> None
           | Some (mid, r) \<Rightarrow>
               Some ((take (length s - length r) s, take (length op) s,
                      take (length cl) (drop (length mid) a)), r)))"

fun first_match ::
  "item list \<Rightarrow> item list \<Rightarrow> string \<Rightarrow> (string \<times> (string \<times> string \<times> string) \<times> string) option" where
  \<comment> \<open>the leftmost match: the text before it, its groups and the rest\<close>
  "first_match op cl [] = (case match_at op cl [] of Some (g, r) \<Rightarrow> Some ([], g, r) | None \<Rightarrow> None)"
| "first_match op cl (c # cs) =
     (case match_at op cl (c # cs) of
        Some (g, r) \<Rightarrow> Some ([], g, r)
      | None \<Rightarrow>
          (case first_match op cl cs of Some (pre, g, r) \<Rightarrow> Some (c # pre, g, r) | None \<Rightarrow> None))"

lemma pmatch_length: "pmatch p s = Some r \<Longrightarrow> length s = length p + length r"
  by (induction p s rule: pmatch.induct) (auto split: if_splits)

lemma find_close_length:
  "find_close cl s = Some (mid, r) \<Longrightarrow> length s = length mid + length cl + length r"
  by (induction s arbitrary: mid) (auto split: option.splits dest: pmatch_length)

lemma match_at_length:
  "match_at op cl s = Some (g, r) \<Longrightarrow> length r + length op + length cl \<le> length s"
  by (auto simp: match_at_def split: option.splits dest!: pmatch_length find_close_length)

lemma first_match_length:
  "first_match op cl s = Some (pre, g, r) \<Longrightarrow> length r + length op + length cl \<le> length s"
  by (induction s arbitrary: pre) (auto split: option.splits dest: match_at_length)

function sub_blocks :: "string \<Rightarrow> tpl_item list \<Rightarrow> string \<Rightarrow> string" where
  \<comment> \<open>\<open>re.sub\<close>: every match, from left to right and without overlap, gives way to the
      expanded template; the text between the matches and after the last one is copied\<close>
  "sub_blocks name tpl s =
     (case first_match (open_pattern name) (close_pattern name) s of
        None \<Rightarrow> s
      | Some (pre, g, r) \<Rightarrow> pre @ expand_template tpl g @ sub_blocks name tpl r)"
  by pat_completeness auto
termination
  by (relation "measure (\<lambda>(name, tpl, s). length s)")
     (auto dest!: first_match_length simp: open_pattern_def)

declare sub_blocks.simps [simp del]

definition re_sub_block :: "string \<Rightarrow> string \<Rightarrow> string \<Rightarrow> error + string" where
  \<comment> \<open>\<open>re.sub(regex, updated_line, file_text, flags=re.DOTALL)\<close>\<close>
  "re_sub_block package_name repl file_text =
     (if \<not> supported_name package_name then Inl UnsupportedPattern
      else (case parse_template repl of
              Inl e \<Rightarrow> Inl e
            | Inr tpl \<Rightarrow> Inr (sub_blocks package_name tpl file_text)))"

definition replacement :: "string \<Rightarrow> string \<Rightarrow> string" where
  "replacement package_name updated_line =
     ''# ['' @ package_name @ '']'' @ [newline] @ updated_line
     @ replicate indentation (CHR '' '') @ ''# [/'' @ package_name @ '']''"

fun rewrite_packages ::
  "string \<Rightarrow> (string \<times> string) list \<Rightarrow> string \<Rightarrow> world \<Rightarrow> error option \<times> world" where
  "rewrite_packages filepath [] file_text w = (None, w)"
| "rewrite_packages filepath ((package_name, updated_line) # ls) file_text w =
     (case re_sub_block package_name (replacement package_name updated_line) file_text of
        Inl e \<Rightarrow> (Some e, w)
      | Inr new_text \<Rightarrow> rewrite_packages filepath ls new_text (write_file filepath new_text w))"

fun rewrite_files ::
  "string list \<Rightarrow> (string \<times> string) list \<Rightarrow> world \<Rightarrow> error option \<times> world" where
  "rewrite_files [] lines_to_write w = (None, w)"
| "rewrite_files (filepath # fps) lines_to_write w =
     (let (file_text, w1) = read_file filepath w
      in (case rewrite_packages filepath lines_to_write file_text w1 of
            (Some e, w2) \<Rightarrow> (Some e, w2)
          | (None, w2) \<Rightarrow> rewrite_files fps lines_to_write w2))"

definition update_external_project_python_packages ::
  "env \<Rightarrow> packages \<Rightarrow> string \<Rightarrow> string \<Rightarrow> world \<Rightarrow> error option \<times> world" where
  "update_external_project_python_packages e packages_to_update directory cpython_tag w =
     (case select_packages e cpython_tag packages_to_update [] w of
        (Inl err, w1) \<Rightarrow> (Some err, w1)
      | (Inr lines_to_write, w1) \<Rightarrow>
          rewrite_files (external_project_filepaths w1 directory) lines_to_write w1)"

section \<open>The orchestrator\<close>

record args =
  arg_search_directory :: "string option"
  arg_cpython_tag :: "string option"
  arg_from_installed_packages :: bool
  arg_validate :: bool
  arg_path :: "string option"

datatype outcome =
    Returned
  | SystemExit_0
  | SystemExit_message string
  | Raised error

fun exit_status :: "outcome \<Rightarrow> nat" where
  \<comment> \<open>the status of the process: \<open>sys.exit\<close> of a string prints it and exits with 1\<close>
  "exit_status Returned = 0"
| "exit_status SystemExit_0 = 0"
| "exit_status (SystemExit_message m) = 1"
| "exit_status (Raised err) = 1"

definition execute_pip_list ::
  "env \<Rightarrow> string option \<Rightarrow> bool \<Rightarrow> world \<Rightarrow> (error + string list) \<times> world" where
  "execute_pip_list e installation_path outdated w =
     (let w1 = w\<lparr>log := log w @ [PipList installation_path outdated]\<rparr>
      in (case pip_output e installation_path outdated of
            None \<Rightarrow> (Inl CalledProcessError, w1)
          | Some pip_list \<Rightarrow> (Inr (split_nl pip_list), w1)))"

definition get_installed_packages ::
  "env \<Rightarrow> string option \<Rightarrow> world \<Rightarrow> (error + string list) \<times> world" where
  "get_installed_packages e installation_path w = execute_pip_list e installation_path False w"

definition get_outdated_packages ::
  "env \<Rightarrow> string option \<Rightarrow> world \<Rightarrow> (error + string list) \<times> world" where
  "get_outdated_packages e installation_path w = execute_pip_list e installation_path True w"

definition main :: "args \<Rightarrow> env \<Rightarrow> world \<Rightarrow> outcome \<times> world" where
  "main a e w =
     (let search_directory =
            (case arg_search_directory a of
               None \<Rightarrow> default_directory e
             | Some d \<Rightarrow> if d = [] then default_directory e else d);
          (mismatches, w1) = validate_external_project_python_package_hints search_directory w
      in if arg_validate a \<or> length mismatches > 0
         then (if length mismatches = 0 then SystemExit_0
               else SystemExit_message (hint_validation_mismatch_summary mismatches), w1)
         else
           (let tag = (case arg_cpython_tag a of
                         None \<Rightarrow> interpreter_cpython_tag e
                       | Some t \<Rightarrow> if t = [] then interpreter_cpython_tag e else t);
                installation_path = arg_path a;
                (listing, w2) =
                  (if arg_from_installed_packages a then get_installed_packages e installation_path w1
                   else if tag = interpreter_cpython_tag e
                   then get_outdated_packages e installation_path w1
                   else get_installed_packages e installation_path w1)
            in (case listing of
                  Inl err \<Rightarrow> (Raised err, w2)
                | Inr pip_lines \<Rightarrow>
                    (case parse_pip_list_output pip_lines of
                       Inl err \<Rightarrow> (Raised err, w2)
                     | Inr packages_to_update \<Rightarrow>
                         (case update_external_project_python_packages e packages_to_update
                                 search_directory tag w2 of
                            (Some err, w3) \<Rightarrow> (Raised err, w3)
                          | (None, w3) \<Rightarrow> (Returned, w3))))))"

section \<open>The validator's result\<close>

definition file_mismatches :: "string \<Rightarrow> string \<Rightarrow> (string \<times> string \<times> string) list" where
  "file_mismatches filepath file_text = check_pairs filepath (pairwise (findall_hints file_text)) []"

fun well_paired :: "string list \<Rightarrow> bool" where
  "well_paired [] = True"
| "well_paired [a] = False"
| "well_paired (a # b # r) = (b = CHR ''/'' # a \<and> well_paired r)"

lemma check_pairs_append: "check_pairs filepath ps ms = ms @ check_pairs filepath ps []"
proof (induction ps arbitrary: ms)
  case Nil
  show ?case by simp
next
  case (Cons p ps)
  obtain first second where p: "p = (first, second)" by (cases p)
  show ?case
    using Cons.IH [of "ms @ [(filepath, first, drop 1 second)]"]
          Cons.IH [of "[(filepath, first, drop 1 second)]"] Cons.IH [of ms]
    by (simp add: p)
qed

lemma validate_files_eq:
  "validate_files fps ms w =
     (ms @ concat (map (\<lambda>p. file_mismatches p (text_of w p)) fps),
      w\<lparr>log := log w @ map Read fps\<rparr>)"
proof (induction fps arbitrary: ms w)
  case Nil
  show ?case by simp
next
  case (Cons p fps)
  show ?case
    using check_pairs_append [of p "pairwise (findall_hints (text_of w p))" ms]
    by (simp add: Cons.IH read_file_def text_of_def file_mismatches_def)
qed

lemma pairwise_odd: "odd (length xs) \<Longrightarrow> pairwise (butlast xs) = pairwise xs"
  by (induction xs rule: pairwise.induct) auto

lemma well_paired_no_mismatch: "well_paired ts \<Longrightarrow> check_pairs filepath (pairwise ts) [] = []"
  by (induction ts rule: well_paired.induct) auto

text \<open>
  Claim C9.  When the scan of a file yields an odd number of delimiter tokens, the pairwise
  grouping drops the last one: the validator reports what it would report for the tokens
  without it, whatever the directory.  In particular a file whose only token is one
  unpaired opening tag gives no mismatch.
\<close>

theorem trailing_unpaired_token_dropped:
  "fst (validate_external_project_python_package_hints directory w) =
     concat (map (\<lambda>filepath.
                    check_pairs filepath
                      (pairwise (if odd (length (findall_hints (text_of w filepath)))
                                 then butlast (findall_hints (text_of w filepath))
                                 else findall_hints (text_of w filepath))) [])
                 (walk w directory))
   \<and> (walk w directory = [single] \<and> findall_hints (text_of w single) = [t]
        \<longrightarrow> fst (validate_external_project_python_package_hints directory w) = [])"
proof -
  have "\<And>ts. pairwise (if odd (length ts) then butlast ts else ts) = pairwise (ts :: string list)"
    by (simp add: pairwise_odd)
  then show ?thesis
    by (simp add: validate_external_project_python_package_hints_def validate_files_eq
        external_project_filepaths_def file_mismatches_def)
qed

definition unpaired_world :: world where
  "unpaired_world =
     \<lparr>walk = (\<lambda>d. if d = ''SuperBuild'' then [''SuperBuild/External_python-foo.cmake''] else []),
      content = (\<lambda>p. ''set(requirements'' @ [CHR 0x0A] @ ''  # [foo]'' @ [CHR 0x0A] @ ''  foo==1.0'' @ [CHR 0x0A]),
      platform = Posix, log = []\<rparr>"

theorem trailing_unpaired_token_dropped_witness:
  "walk unpaired_world ''SuperBuild'' = [''SuperBuild/External_python-foo.cmake'']
   \<and> findall_hints (text_of unpaired_world ''SuperBuild/External_python-foo.cmake'') = [''foo'']
   \<and> fst (validate_external_project_python_package_hints ''SuperBuild'' unpaired_world) = []"
proof -
  have w: "walk unpaired_world ''SuperBuild'' = [''SuperBuild/External_python-foo.cmake'']"
    by (simp add: unpaired_world_def)
  have h: "findall_hints (text_of unpaired_world ''SuperBuild/External_python-foo.cmake'') = [''foo'']"
    unfolding unpaired_world_def text_of_def read_file_def by code_simp
  from trailing_unpaired_token_dropped
         [of "''SuperBuild''" unpaired_world "''SuperBuild/External_python-foo.cmake''" "''foo''"] w h
  show ?thesis by blast
qed


subsection \<open>The scan, line by line\<close>

text \<open>
  A tag line is a line that, after its leading whitespace, is \<^verbatim>\<open># [\<close>, an optional slash,
  two or more characters of the class of the hint pattern (word characters, \<open>-\<close>, \<open>)\<close>
  and \<open>]\<close>) of which the last is \<open>]\<close>, and nothing more.  Its identifier is what stands
  between \<^verbatim>\<open># [\<close> and that last bracket.  The tags of a text are the identifiers of its
  tag lines, in order.
\<close>

definition tag_of_line :: "string \<Rightarrow> string option" where
  "tag_of_line line =
     (let s = dropWhile is_space line in
      if take 3 s = ''# [''
      then let u = drop 3 s;
               v = (if take 1 u = ''/'' then drop 1 u else u)
           in if 2 \<le> length v \<and> list_all hint_class v \<and> last v = CHR '']''
              then Some (butlast u) else None
      else None)"

definition tags :: "string \<Rightarrow> string list" where
  "tags file_text = List.map_filter tag_of_line (split_nl file_text)"

lemma split_nl_acc_line:
  "newline \<notin> set l \<Longrightarrow> split_nl_acc cur (l @ newline # r) = (cur @ l) # split_nl_acc [] r"
  by (induction l arbitrary: cur) (auto simp: newline_def)

lemma split_nl_acc_last:
  "newline \<notin> set l \<Longrightarrow> split_nl_acc cur l = [cur @ l]"
  by (induction l arbitrary: cur) (auto simp: newline_def)

lemma findall_skip_line:
  "newline \<notin> set l \<Longrightarrow> findall_hints_from False (l @ newline # r) = findall_hints_from True r"
  by (induction l) (auto simp: newline_def)

lemma findall_skip_last:
  "newline \<notin> set l \<Longrightarrow> findall_hints_from False l = []"
  by (induction l) (auto simp: newline_def)

lemma match_hint_Nil: "match_hint [] = None"
  by (simp add: match_hint_def)

lemma findall_match:
  "match_hint s = Some (g, rest) \<Longrightarrow> findall_hints_from True s = g # findall_hints_from False rest"
  by (cases s) (simp_all add: match_hint_Nil)

lemma findall_no_match_line:
  assumes "newline \<notin> set l" and "match_hint (l @ newline # r) = None"
  shows "findall_hints_from True (l @ newline # r) = findall_hints_from True r"
proof (cases l)
  case Nil
  with assms(2) show ?thesis by (simp add: newline_def)
next
  case (Cons c cs)
  with assms(1) have "c \<noteq> CHR 0x0A" and "newline \<notin> set cs" by (auto simp: newline_def)
  with assms(2) findall_skip_line [of cs r] show ?thesis by (simp add: Cons)
qed

lemma findall_no_match_last:
  assumes "newline \<notin> set l" and "match_hint l = None"
  shows "findall_hints_from True l = []"
proof (cases l)
  case Nil
  then show ?thesis by simp
next
  case (Cons c cs)
  with assms(1) have "c \<noteq> CHR 0x0A" and "newline \<notin> set cs" by (auto simp: newline_def)
  with assms(2) findall_skip_last [of cs] show ?thesis by (simp add: Cons)
qed

lemma newline_classes: "is_space newline" "\<not> hint_class newline"
  by (simp_all add: newline_def is_space_def hint_class_def is_word_def ascii_digit_def
      ascii_letter_def)

lemma take_line:
  assumes "newline \<notin> set p" and "t = [] \<or> (\<exists>r. t = newline # r)"
  shows "take (length p) (s @ t) = p \<longleftrightarrow> take (length p) s = p"
proof (cases "length p \<le> length s")
  case True
  then show ?thesis by simp
next
  case False
  then have l: "length s < length p" by simp
  have r: "take (length p) s \<noteq> p"
  proof
    assume "take (length p) s = p"
    then have "length (take (length p) s) = length p" by simp
    with l show False by simp
  qed
  have "take (length p) (s @ t) \<noteq> p"
  proof
    assume e: "take (length p) (s @ t) = p"
    from assms(2) show False
    proof
      assume "t = []"
      with e r show False by simp
    next
      assume "\<exists>r. t = newline # r"
      then obtain r where t: "t = newline # r" by blast
      from l obtain k where k: "length p - length s = Suc k" by (cases "length p - length s") auto
      from e l have "p = s @ newline # take k r" by (simp add: t k)
      with assms(1) show False by simp
    qed
  qed
  with r show ?thesis by simp
qed

lemma match_hint_blank_line:
  "list_all is_space l \<Longrightarrow> match_hint (l @ newline # r) = match_hint r"
proof -
  assume "list_all is_space l"
  then have "dropWhile is_space (l @ newline # r) = dropWhile is_space r"
    by (simp add: dropWhile_append2 list_all_iff newline_classes)
  then show ?thesis by (simp add: match_hint_def)
qed

lemma match_hint_blank_last: "list_all is_space l \<Longrightarrow> match_hint l = None"
proof -
  assume "list_all is_space l"
  then have d: "dropWhile is_space l = []" by (simp add: list_all_iff)
  show ?thesis unfolding match_hint_def d by simp
qed

lemma tag_of_line_blank: "list_all is_space l \<Longrightarrow> tag_of_line l = None"
proof -
  assume "list_all is_space l"
  then have d: "dropWhile is_space l = []" by (simp add: list_all_iff)
  show ?thesis unfolding tag_of_line_def d by simp
qed

lemma line_match:
  assumes nl: "newline \<notin> set l" and nb: "\<not> list_all is_space l"
    and t: "t = [] \<or> (\<exists>r. t = newline # r)"
  shows "match_hint (l @ t) = map_option (\<lambda>g. (g, t)) (tag_of_line l)"
proof -
  define s where "s = dropWhile is_space l"
  from nb obtain x where "x \<in> set l" "\<not> is_space x" by (auto simp: list_all_iff)
  then have d: "dropWhile is_space (l @ t) = s @ t"
    unfolding s_def by (rule dropWhile_append1)
  have sn: "newline \<notin> set s"
    using nl set_dropWhileD [of newline is_space l] unfolding s_def by blast
  have tc: "takeWhile hint_class t = []" "dropWhile hint_class t = t"
    using t by (auto simp: newline_classes)
  have p3: "take 3 (s @ t) = ''# ['' \<longleftrightarrow> take 3 s = ''# [''"
  proof -
    have n: "newline \<notin> set ''# [''" by (simp add: newline_def)
    have l: "length ''# ['' = 3" by simp
    from take_line [OF n t, of s] show ?thesis unfolding l .
  qed
  show ?thesis
  proof (cases "take 3 s = ''# [''")
    case False
    with p3 show ?thesis
      by (simp add: match_hint_def tag_of_line_def d s_def [symmetric])
  next
    case True
    define u where "u = drop 3 s"
    have un: "newline \<notin> set u"
      using sn in_set_dropD [of newline 3 s] unfolding u_def by blast
    have p1: "take 1 (u @ t) = ''/'' \<longleftrightarrow> take 1 u = ''/''"
    proof -
      have n: "newline \<notin> set ''/''" by (simp add: newline_def)
      have l: "length ''/'' = 1" by simp
      from take_line [OF n t, of u] show ?thesis unfolding l .
    qed
    define sl where "sl = (if take 1 u = ''/'' then ''/'' else [])"
    define v where "v = (if take 1 u = ''/'' then drop 1 u else u)"
    have uv: "u = sl @ v"
    proof (cases "take 1 u = ''/''")
      case True
      have "u = take 1 u @ drop 1 u" by (simp only: append_take_drop_id)
      then have "u = ''/'' @ drop 1 u" unfolding True .
      with True show ?thesis by (simp add: sl_def v_def)
    next
      case False
      then show ?thesis by (simp add: sl_def v_def)
    qed
    have vn: "newline \<notin> set v" using un uv by simp
    have s3: "drop (length (if take 1 (drop 3 (s @ t)) = ''/'' then ''/'' else [])) (drop 3 (s @ t)) = v @ t"
    proof -
      have l3: "3 \<le> length s"
      proof (rule ccontr)
        assume "\<not> 3 \<le> length s"
        then have "length (take 3 s) < 3" by simp
        with True show False by simp
      qed
      then have "drop 3 (s @ t) = u @ t" by (simp add: u_def)
      moreover have "drop (length sl) (u @ t) = v @ t" by (simp add: uv)
      ultimately show ?thesis using p1 by (simp add: sl_def)
    qed
    have code: "match_hint (l @ t) =
      (if 2 \<le> length (takeWhile hint_class (v @ t)) \<and> last (takeWhile hint_class (v @ t)) = CHR '']''
          \<and> (dropWhile hint_class (v @ t) = [] \<or> hd (dropWhile hint_class (v @ t)) = CHR 0x0A)
       then Some (sl @ butlast (takeWhile hint_class (v @ t)), dropWhile hint_class (v @ t)) else None)"
    proof -
      have l3: "3 \<le> length s"
      proof (rule ccontr)
        assume "\<not> 3 \<le> length s"
        then have "length (take 3 s) < 3" by simp
        with True show False by simp
      qed
      then have du: "drop 3 (s @ t) = u @ t" by (simp add: u_def)
      have sl': "(if take 1 (u @ t) = ''/'' then ''/'' else []) = sl" using p1 by (simp add: sl_def)
      have dv: "drop (length sl) (u @ t) = v @ t" by (simp add: uv)
      show ?thesis
        unfolding match_hint_def d Let_def du sl' dv using p3 True by simp
    qed
    have spec: "tag_of_line l =
      (if 2 \<le> length v \<and> list_all hint_class v \<and> last v = CHR '']'' then Some (butlast u) else None)"
      unfolding tag_of_line_def Let_def s_def [symmetric] u_def [symmetric] v_def [symmetric]
      using True by (simp only: if_True refl)
    show ?thesis
    proof (cases "list_all hint_class v")
      case True
      then have tw: "takeWhile hint_class (v @ t) = v" and dw: "dropWhile hint_class (v @ t) = t"
        using tc by (simp_all add: list_all_iff takeWhile_append2 dropWhile_append2)
      have rest: "t = [] \<or> hd t = CHR 0x0A" using t by (auto simp: newline_def)
      show ?thesis
      proof (cases "2 \<le> length v \<and> last v = CHR '']''")
        case c: True
        then have "v \<noteq> []" by auto
        then have "butlast u = sl @ butlast v" by (simp add: uv butlast_append)
        with c True rest show ?thesis by (simp add: code spec tw dw)
      next
        case False
        with True show ?thesis by (auto simp: code spec tw dw)
      qed
    next
      case False
      then obtain y where y: "y \<in> set v" "\<not> hint_class y" by (auto simp: list_all_iff)
      then have dw: "dropWhile hint_class (v @ t) = dropWhile hint_class v @ t"
        by (rule dropWhile_append1)
      from y have ne: "dropWhile hint_class v \<noteq> []" by (auto simp: dropWhile_eq_Nil_conv)
      then have "hd (dropWhile hint_class v) \<in> set (dropWhile hint_class v)" by simp
      then have "hd (dropWhile hint_class v) \<in> set v" by (rule set_dropWhileD)
      with vn have "hd (dropWhile hint_class v) \<noteq> newline" by auto
      with ne have "\<not> (dropWhile hint_class (v @ t) = [] \<or> hd (dropWhile hint_class (v @ t)) = CHR 0x0A)"
        by (simp add: dw newline_def)
      with False show ?thesis by (simp add: code spec)
    qed
  qed
qed

lemma findall_tags:
  "findall_hints_from True file_text = List.map_filter tag_of_line (split_nl_acc [] file_text)"
proof (induction file_text rule: measure_induct_rule [where f = length])
  case (less file_text)
  define l where "l = takeWhile (\<lambda>c. c \<noteq> newline) file_text"
  define rest where "rest = dropWhile (\<lambda>c. c \<noteq> newline) file_text"
  have nl: "newline \<notin> set l"
    unfolding l_def using set_takeWhileD [of newline "\<lambda>c. c \<noteq> newline" file_text] by blast
  have ft: "file_text = l @ rest" by (simp add: l_def rest_def)
  show ?case
  proof (cases rest)
    case Nil
    with ft have e: "file_text = l" by simp
    show ?thesis
    proof (cases "list_all is_space l")
      case True
      with findall_no_match_last [OF nl match_hint_blank_last [OF True]]
      show ?thesis by (simp add: e split_nl_acc_last [OF nl] map_filter_simps tag_of_line_blank)
    next
      case False
      from line_match [OF nl False, of "[]"]
      have m: "match_hint l = map_option (\<lambda>g. (g, [])) (tag_of_line l)" by simp
      show ?thesis
      proof (cases "tag_of_line l")
        case None
        with m findall_no_match_last [OF nl] show ?thesis
          by (simp add: e split_nl_acc_last [OF nl] map_filter_simps)
      next
        case (Some g)
        with m findall_match [of l g "[]"] show ?thesis
          by (simp add: e split_nl_acc_last [OF nl] map_filter_simps)
      qed
    qed
  next
    case (Cons c r)
    have "c = newline"
      using hd_dropWhile [of "\<lambda>c. c \<noteq> newline" file_text] Cons unfolding rest_def by auto
    with Cons ft have e: "file_text = l @ newline # r" by simp
    then have "length r < length file_text" by simp
    from less.IH [OF this] have ih:
      "findall_hints_from True r = List.map_filter tag_of_line (split_nl_acc [] r)" .
    have sp: "split_nl_acc [] file_text = l # split_nl_acc [] r"
      unfolding e using split_nl_acc_line [OF nl, of "[]" r] by simp
    show ?thesis
    proof (cases "list_all is_space l")
      case True
      have mh: "match_hint (l @ newline # r) = match_hint r"
        by (rule match_hint_blank_line [OF True])
      have "findall_hints_from True (l @ newline # r) = findall_hints_from True r"
      proof (cases "match_hint r")
        case None
        with mh findall_no_match_line [OF nl] show ?thesis by simp
      next
        case (Some m)
        obtain g rest' where "m = (g, rest')" by (cases m)
        with Some mh findall_match [of "l @ newline # r" g rest'] findall_match [of r g rest']
        show ?thesis by simp
      qed
      then show ?thesis
        by (simp add: e [symmetric] sp map_filter_simps tag_of_line_blank [OF True] ih)
    next
      case False
      from line_match [OF nl False, of "newline # r"]
      have m: "match_hint (l @ newline # r) = map_option (\<lambda>g. (g, newline # r)) (tag_of_line l)"
        by simp
      show ?thesis
      proof (cases "tag_of_line l")
        case None
        with m findall_no_match_line [OF nl, of r] show ?thesis
          by (simp add: e [symmetric] sp map_filter_simps ih)
      next
        case (Some g)
        with m findall_match [of "l @ newline # r" g "newline # r"]
        have "findall_hints_from True file_text = g # findall_hints_from False (newline # r)"
          by (simp add: e)
        also have "findall_hints_from False (newline # r) = findall_hints_from True r"
          by (simp add: newline_def)
        finally show ?thesis by (simp add: sp map_filter_simps Some ih)
      qed
    qed
  qed
qed

lemma findall_hints_tags: "findall_hints file_text = tags file_text"
  by (simp add: findall_hints_def tags_def split_nl_def findall_tags)

lemma tag_of_line_tag:
  assumes "list_all is_space indent" and "name \<noteq> []" and "list_all hint_class name"
  shows "tag_of_line (indent @ ''# ['' @ name @ '']'') = Some name"
    and "tag_of_line (indent @ ''# [/'' @ name @ '']'') = Some (CHR ''/'' # name)"
proof -
  have h: "\<not> is_space (CHR ''#'')" "\<not> hint_class (CHR ''/'')" "hint_class (CHR '']'')"
    by (simp_all add: is_space_def hint_class_def is_word_def ascii_digit_def ascii_letter_def)
  have d: "dropWhile is_space (indent @ CHR ''#'' # t) = CHR ''#'' # t" for t
    using assms(1) h(1) by (simp add: dropWhile_append2 list_all_iff)
  from assms(2) obtain c cs where n: "name = c # cs" by (cases name) auto
  with assms(3) h(2) have c: "c \<noteq> CHR ''/''" by auto
  have a: "list_all hint_class (name @ '']'')" using assms(3) h(3) by simp
  have l: "2 \<le> length (name @ '']'')" using assms(2) by (cases name) auto
  have 1: "tag_of_line (indent @ CHR ''#'' # '' ['' @ name @ '']'') = Some name"
    unfolding tag_of_line_def d using a l c by (simp add: n)
  have 2: "tag_of_line (indent @ CHR ''#'' # '' [/'' @ name @ '']'') = Some (CHR ''/'' # name)"
    unfolding tag_of_line_def d using a l by (simp add: butlast_append)
  from 1 show "tag_of_line (indent @ ''# ['' @ name @ '']'') = Some name" by simp
  from 2 show "tag_of_line (indent @ ''# [/'' @ name @ '']'') = Some (CHR ''/'' # name)" by simp
qed

lemma concat_map_no_mismatch:
  "\<forall>p \<in> set fps. well_paired (tags (text_of w p)) \<Longrightarrow>
   concat (map (\<lambda>p. file_mismatches p (text_of w p)) fps) = []"
  by (induction fps) (auto simp: file_mismatches_def well_paired_no_mismatch findall_hints_tags)

definition good_text :: string where
  "good_text = ''set(requirements_file'' @ [CHR 0x0A] @ ''  # [numpy]'' @ [CHR 0x0A]
     @ ''  numpy==1.26.4 --hash=sha256:aa'' @ [CHR 0x0A] @ ''  # [/numpy]'' @ [CHR 0x0A]
     @ ''  # [scipy]'' @ [CHR 0x0A] @ ''  scipy==1.11.4 --hash=sha256:bb'' @ [CHR 0x0A]
     @ ''  # [/scipy]'' @ [CHR 0x0A] @ '')'' @ [CHR 0x0A]"

definition bad_text :: string where
  "bad_text = ''  # [requests]'' @ [CHR 0x0A] @ ''  requests==2.31.0 --hash=sha256:cc'' @ [CHR 0x0A]
     @ ''  # [/urllib3]'' @ [CHR 0x0A]"

definition pairs_world :: world where
  "pairs_world =
     \<lparr>walk = (\<lambda>d. if d = ''SuperBuild'' then [''SuperBuild/a.cmake'', ''SuperBuild/b.cmake''] else
                  if d = ''Good'' then [''SuperBuild/a.cmake''] else []),
      content = (\<lambda>p. if p = ''SuperBuild/b.cmake'' then bad_text else good_text),
      platform = Posix, log = []\<rparr>"

definition dotted_text :: string where
  "dotted_text = ''  # [zope.interface]'' @ [CHR 0x0A] @ ''  zope.interface==6.0 --hash=sha256:aa''
     @ [CHR 0x0A] @ ''  # [/zope.event]'' @ [CHR 0x0A]"

definition trailing_blank_text :: string where
  "trailing_blank_text = ''  # [foo] '' @ [CHR 0x0A] @ ''  foo==1.0 --hash=sha256:aa'' @ [CHR 0x0A]
     @ ''  # [/foo]'' @ [CHR 0x0A] @ ''  # [bar]'' @ [CHR 0x0A] @ ''  bar==1.0 --hash=sha256:bb''
     @ [CHR 0x0A] @ ''  # [/bar]'' @ [CHR 0x0A]"

definition unseen_world :: world where
  "unseen_world =
     \<lparr>walk = (\<lambda>d. if d = ''Dotted'' then [''Dotted/a.cmake''] else
                  if d = ''Blank'' then [''Blank/b.cmake''] else []),
      content = (\<lambda>p. if p = ''Dotted/a.cmake'' then dotted_text else trailing_blank_text),
      platform = Posix, log = []\<rparr>"

text \<open>
  The claim C4 as it is written fails in both directions, because the validator only sees
  tag lines.  A file with one pair whose closing tag names another package than its opening
  tag gives no mismatch when the names hold a dot, which is not in the class of the hint
  pattern.  A file of two correctly paired blocks in which a blank follows the first
  opening tag gives a mismatch: that tag is not seen, the three others are paired one off.
\<close>

theorem validator_pairs_counterexample:
  "text_of unseen_world ''Dotted/a.cmake'' =
     ''  # [zope.interface]'' @ [CHR 0x0A] @ ''  zope.interface==6.0 --hash=sha256:aa''
     @ [CHR 0x0A] @ ''  # [/zope.event]'' @ [CHR 0x0A]
   \<and> fst (validate_external_project_python_package_hints ''Dotted'' unseen_world) = []
   \<and> text_of unseen_world ''Blank/b.cmake'' =
     ''  # [foo] '' @ [CHR 0x0A] @ ''  foo==1.0 --hash=sha256:aa'' @ [CHR 0x0A]
     @ ''  # [/foo]'' @ [CHR 0x0A] @ ''  # [bar]'' @ [CHR 0x0A] @ ''  bar==1.0 --hash=sha256:bb''
     @ [CHR 0x0A] @ ''  # [/bar]'' @ [CHR 0x0A]
   \<and> fst (validate_external_project_python_package_hints ''Blank'' unseen_world)
       = [(''Blank/b.cmake'', ''/foo'', ''ar'')]"
  unfolding unseen_world_def dotted_text_def trailing_blank_text_def text_of_def read_file_def
  by code_simp

text \<open>
  Claim C4, as amended.  The scan of a text yields the identifiers of its tag lines, whatever
  the text; a line of whitespace, \<^verbatim>\<open># [\<close>, a name of characters of the class and
  \<open>]\<close> is a tag line with that name as identifier, and with a slash before the name it is
  one with the slash and the name.  The validator returns the empty list for a directory in
  which the tags of every file come in pairs of a name and the same name behind a slash.
  When one file of the directory has exactly two tags, a name and another name behind a
  slash, and every other file is paired as before, the result is that one mismatch: the
  file's path, the first identifier, and the second identifier without its leading slash.
\<close>

theorem validator_pairs:
  "findall_hints file_text = tags file_text
   \<and> (list_all is_space indent \<and> name \<noteq> [] \<and> list_all hint_class name \<longrightarrow>
        tag_of_line (indent @ ''# ['' @ name @ '']'') = Some name
        \<and> tag_of_line (indent @ ''# [/'' @ name @ '']'') = Some (CHR ''/'' # name))
   \<and> ((\<forall>filepath \<in> set (walk w directory). well_paired (tags (text_of w filepath)))
      \<longrightarrow> fst (validate_external_project_python_package_hints directory w) = [])
   \<and> (walk w directory = before @ [bad] @ after
        \<and> (\<forall>filepath \<in> set (before @ after). well_paired (tags (text_of w filepath)))
        \<and> tags (text_of w bad) = [first, CHR ''/'' # second] \<and> first \<noteq> second
      \<longrightarrow> fst (validate_external_project_python_package_hints directory w) = [(bad, first, second)])"
proof (intro conjI impI)
  show "findall_hints file_text = tags file_text" by (rule findall_hints_tags)
next
  assume a: "list_all is_space indent \<and> name \<noteq> [] \<and> list_all hint_class name"
  then show "tag_of_line (indent @ ''# ['' @ name @ '']'') = Some name"
    and "tag_of_line (indent @ ''# [/'' @ name @ '']'') = Some (CHR ''/'' # name)"
    using tag_of_line_tag [of indent name] by blast+
next
  assume "\<forall>filepath \<in> set (walk w directory). well_paired (tags (text_of w filepath))"
  then show "fst (validate_external_project_python_package_hints directory w) = []"
    by (simp add: validate_external_project_python_package_hints_def validate_files_eq
        external_project_filepaths_def concat_map_no_mismatch)
next
  assume a: "walk w directory = before @ [bad] @ after
        \<and> (\<forall>filepath \<in> set (before @ after). well_paired (tags (text_of w filepath)))
        \<and> tags (text_of w bad) = [first, CHR ''/'' # second] \<and> first \<noteq> second"
  then have wb: "\<forall>p \<in> set before. well_paired (tags (text_of w p))"
    and wa: "\<forall>p \<in> set after. well_paired (tags (text_of w p))"
    by simp_all
  have m: "file_mismatches bad (text_of w bad) = [(bad, first, second)]"
    using a by (simp add: file_mismatches_def findall_hints_tags)
  have "fst (validate_external_project_python_package_hints directory w) =
          concat (map (\<lambda>p. file_mismatches p (text_of w p)) before)
          @ file_mismatches bad (text_of w bad)
          @ concat (map (\<lambda>p. file_mismatches p (text_of w p)) after)"
    using a by (simp add: validate_external_project_python_package_hints_def validate_files_eq
        external_project_filepaths_def)
  also have "\<dots> = [(bad, first, second)]"
    unfolding concat_map_no_mismatch [OF wb] concat_map_no_mismatch [OF wa] m by simp
  finally show "fst (validate_external_project_python_package_hints directory w) = [(bad, first, second)]" .
qed

theorem validator_pairs_witness:
  "list_all is_space ''  '' \<and> ''numpy'' \<noteq> [] \<and> list_all hint_class ''numpy''
   \<and> tag_of_line (''  '' @ ''# ['' @ ''numpy'' @ '']'') = Some ''numpy''
   \<and> tag_of_line (''  '' @ ''# [/'' @ ''numpy'' @ '']'') = Some ''/numpy''
   \<and> walk pairs_world ''Good'' = [''SuperBuild/a.cmake'']
   \<and> tags (text_of pairs_world ''SuperBuild/a.cmake'') = [''numpy'', ''/numpy'', ''scipy'', ''/scipy'']
   \<and> well_paired (tags (text_of pairs_world ''SuperBuild/a.cmake''))
   \<and> fst (validate_external_project_python_package_hints ''Good'' pairs_world) = []
   \<and> walk pairs_world ''SuperBuild'' = [''SuperBuild/a.cmake''] @ [''SuperBuild/b.cmake''] @ []
   \<and> tags (text_of pairs_world ''SuperBuild/b.cmake'') = [''requests'', CHR ''/'' # ''urllib3'']
   \<and> fst (validate_external_project_python_package_hints ''SuperBuild'' pairs_world)
       = [(''SuperBuild/b.cmake'', ''requests'', ''urllib3'')]"
proof -
  have ta: "text_of pairs_world ''SuperBuild/a.cmake'' = good_text"
    unfolding pairs_world_def good_text_def text_of_def read_file_def by code_simp
  have tb: "text_of pairs_world ''SuperBuild/b.cmake'' = bad_text"
    unfolding pairs_world_def bad_text_def text_of_def read_file_def by code_simp
  have g: "tags good_text = [''numpy'', ''/numpy'', ''scipy'', ''/scipy'']"
    unfolding good_text_def by code_simp
  have b: "tags bad_text = [''requests'', ''/urllib3'']"
    unfolding bad_text_def by code_simp
  have i: "list_all is_space ''  ''" by code_simp
  have c: "list_all hint_class ''numpy''" by code_simp
  have n: "''numpy'' \<noteq> []" by simp
  have 6: "walk pairs_world ''Good'' = [''SuperBuild/a.cmake'']"
    by (simp add: pairs_world_def)
  have 1: "\<forall>filepath \<in> set (walk pairs_world ''Good''). well_paired (tags (text_of pairs_world filepath))"
    unfolding 6 by (simp add: ta g)
  have 2: "walk pairs_world ''SuperBuild'' = [''SuperBuild/a.cmake''] @ [''SuperBuild/b.cmake''] @ []"
    by (simp add: pairs_world_def)
  have 3: "\<forall>filepath \<in> set ([''SuperBuild/a.cmake''] @ []). well_paired (tags (text_of pairs_world filepath))"
    by (simp add: ta g)
  have 4: "tags (text_of pairs_world ''SuperBuild/b.cmake'') = [''requests'', CHR ''/'' # ''urllib3'']"
    by (simp add: tb b)
  have 5: "''requests'' \<noteq> ''urllib3''" by simp
  note T = validator_pairs [of "[]" "''  ''" "''numpy''" pairs_world _ "[''SuperBuild/a.cmake'']"
      "''SuperBuild/b.cmake''" "[]" "''requests''" "''urllib3''"]
  from T [of "''Good''"] i n c
  have t1: "tag_of_line (''  '' @ ''# ['' @ ''numpy'' @ '']'') = Some ''numpy''"
    and t2: "tag_of_line (''  '' @ ''# [/'' @ ''numpy'' @ '']'') = Some ''/numpy''"
    by blast+
  from T [of "''Good''"] 1
  have r1: "fst (validate_external_project_python_package_hints ''Good'' pairs_world) = []"
    by blast
  from T [of "''SuperBuild''"] 2 3 4 5
  have r2: "fst (validate_external_project_python_package_hints ''SuperBuild'' pairs_world)
       = [(''SuperBuild/b.cmake'', ''requests'', ''urllib3'')]"
    by blast
  have 7: "tags (text_of pairs_world ''SuperBuild/a.cmake'') = [''numpy'', ''/numpy'', ''scipy'', ''/scipy'']"
    by (simp add: ta g)
  have 8: "well_paired (tags (text_of pairs_world ''SuperBuild/a.cmake''))"
    by (simp add: ta g)
  show ?thesis
    by (intro conjI) (rule i, rule n, rule c, rule t1, rule t2, rule 6, rule 7, rule 8, rule r1,
        rule 2, rule 4, rule r2)
qed

section \<open>The release selector\<close>

definition keeps :: "string \<Rightarrow> release_file \<Rightarrow> bool" where
  "keeps target_tag rf =
     ((python_version rf = ''py3'' \<or> python_version rf = ''py2.py3'' \<or> python_version rf = target_tag
         \<or> contains ''abi3'' (filename rf))
      \<and> packagetype rf = ''bdist_wheel''
      \<and> (ends_with (filename rf) ''py3-none-any.whl'' \<or> ends_with (filename rf) ''64.whl''
           \<or> ends_with (filename rf) ''universal2.whl''))"

definition thirty_two_bit :: "string \<Rightarrow> bool" where
  "thirty_two_bit name =
     (ends_with name ''win32.whl'' \<or> ends_with name ''i686.whl'' \<or> ends_with name ''armv7l.whl'')"

definition filename_line :: "release_file \<Rightarrow> string" where
  "filename_line rf = ''  #  - '' @ filename rf"

definition hash_line :: "release_file \<Rightarrow> string" where
  "hash_line rf = ''--hash=sha256:'' @ digest_sha256 rf"

lemma select_file_keeps:
  "select_file tag rf acc =
     (if keeps tag rf then (fst acc @ [filename_line rf], snd acc @ [hash_line rf]) else acc)"
  by (simp add: select_file_def keeps_def filename_line_def hash_line_def indentation_def
      numeral_2_eq_2 del: ends_with.simps)

lemma select_files_acc:
  "select_files tag rs acc =
     (fst acc @ map filename_line (filter (keeps tag) rs),
      snd acc @ map hash_line (filter (keeps tag) rs))"
  by (induction rs arbitrary: acc) (simp_all add: select_file_keeps)

lemma ends_with_both:
  assumes "ends_with s a" and "ends_with s b"
  shows "ends_with a b \<or> ends_with b a"
proof -
  have *: "drop (length x - length y) x = y"
    if x: "length x \<le> length s" "drop (length s - length x) s = x"
      and y: "drop (length s - length y) s = y" and le: "length y \<le> length x"
    for x y :: string
  proof -
    have "length x - length y + (length s - length x) = length s - length y"
      using x(1) le by arith
    then have "drop (length x - length y) (drop (length s - length x) s) = drop (length s - length y) s"
      by (simp only: drop_drop)
    then show ?thesis by (simp only: x(2) y)
  qed
  show ?thesis
  proof (cases "length b \<le> length a")
    case True
    with * [of a b] assms show ?thesis by simp
  next
    case False
    with * [of b a] assms show ?thesis by simp
  qed
qed

lemma thirty_two_bit_not_kept: "thirty_two_bit (filename rf) \<Longrightarrow> \<not> keeps tag rf"
proof
  assume t: "thirty_two_bit (filename rf)" and k: "keeps tag rf"
  from t obtain a where a: "a \<in> {''win32.whl'', ''i686.whl'', ''armv7l.whl''}" "ends_with (filename rf) a"
    unfolding thirty_two_bit_def by blast
  from k obtain b where b: "b \<in> {''py3-none-any.whl'', ''64.whl'', ''universal2.whl''}" "ends_with (filename rf) b"
    unfolding keeps_def by blast
  from ends_with_both [OF a(2) b(2)] have "ends_with a b \<or> ends_with b a" .
  with a(1) b(1) show False by auto
qed


definition desired_version :: "env \<Rightarrow> string \<Rightarrow> string \<times> string \<Rightarrow> string" where
  \<comment> \<open>the latest version when the target tag is the interpreter's, the current one otherwise\<close>
  "desired_version e tag versions =
     (if tag = interpreter_cpython_tag e then snd versions else fst versions)"

definition desired_files :: "env \<Rightarrow> string \<Rightarrow> (string \<rightharpoonup> release_file list) \<Rightarrow> string \<times> string \<Rightarrow> release_file list" where
  \<comment> \<open>\<open>data["releases"].get(desired_version, [])\<close>\<close>
  "desired_files e tag releases versions =
     (case releases (desired_version e tag versions) of None \<Rightarrow> [] | Some fs \<Rightarrow> fs)"

lemma select_packages_step:
  assumes "package_name \<noteq> ''vtk''" and "package_name \<noteq> ''simpleitk''"
    and "pypi e package_name = Json (Some releases)"
  shows "select_packages e tag ((package_name, (cur, lat)) # ps) ltw w =
     (let dv = (if tag = interpreter_cpython_tag e then lat else cur);
          kept = filter (keeps tag) (desired_files e tag releases (cur, lat));
          w1 = w\<lparr>log := log w @ [Query package_name]\<rparr>
      in if kept = [] then select_packages e tag ps ltw w1
         else select_packages e tag ps
                (AList.update package_name
                   (block_text package_name dv (map filename_line kept) (map hash_line kept) @ [newline])
                   ltw) w1)"
  using assms by (simp add: select_files_acc Let_def desired_files_def desired_version_def)

lemma unwanted_not_kept:
  assumes "\<forall>rf \<in> set fs. packagetype rf \<noteq> ''bdist_wheel'' \<or> thirty_two_bit (filename rf)"
  shows "filter (keeps tag) fs = []"
proof -
  have "\<not> keeps tag rf" if "rf \<in> set fs" for rf
    using that assms thirty_two_bit_not_kept [of rf tag] by (auto simp: keeps_def)
  then show ?thesis by (simp add: filter_empty_conv)
qed

text \<open>
  Claim C5.  The loop over the release files keeps a file exactly when its declared
  interpreter compatibility is \<open>py3\<close>, \<open>py2.py3\<close> or the target tag, or its filename
  contains \<open>abi3\<close>, and its packaging type is \<open>bdist_wheel\<close>, and its filename ends with
  \<open>py3-none-any.whl\<close>, \<open>64.whl\<close> or \<open>universal2.whl\<close>: the filenames and the hashes it
  collects are those of the kept files, in order.  For every package that is not excluded
  and that the index knows, the selector applies this loop, with the target tag, to the
  files that the index lists for the desired version, asks the index once and goes on with
  the other packages: when no file is kept the generated blocks stay as they are, otherwise
  the package gets the block made of the kept files' names and hashes.  When every file is
  either not a wheel or a wheel for a 32-bit platform, nothing is kept and the package
  gets no block.
\<close>

theorem release_selection:
  "select_files target_tag files ([], []) =
     (map (\<lambda>rf. replicate indentation (CHR '' '') @ ''#  - '' @ filename rf) (filter (keeps target_tag) files),
      map (\<lambda>rf. ''--hash=sha256:'' @ digest_sha256 rf) (filter (keeps target_tag) files))
   \<and> ((\<forall>rf \<in> set files. packagetype rf \<noteq> ''bdist_wheel'' \<or> thirty_two_bit (filename rf))
        \<longrightarrow> filter (keeps target_tag) files = []
            \<and> select_files target_tag files ([], []) = ([], []))
   \<and> (package_name \<noteq> ''vtk'' \<and> package_name \<noteq> ''simpleitk''
        \<and> pypi e package_name = Json (Some releases)
        \<longrightarrow> select_packages e target_tag ((package_name, versions) # packages) lines_to_write w =
              select_packages e target_tag packages
                (if filter (keeps target_tag) (desired_files e target_tag releases versions) = []
                 then lines_to_write
                 else AList.update package_name
                        (block_text package_name (desired_version e target_tag versions)
                           (map (\<lambda>rf. ''  #  - '' @ filename rf)
                              (filter (keeps target_tag) (desired_files e target_tag releases versions)))
                           (map (\<lambda>rf. ''--hash=sha256:'' @ digest_sha256 rf)
                              (filter (keeps target_tag) (desired_files e target_tag releases versions)))
                         @ [newline])
                        lines_to_write)
                (w\<lparr>log := log w @ [Query package_name]\<rparr>))
   \<and> (package_name \<noteq> ''vtk'' \<and> package_name \<noteq> ''simpleitk''
        \<and> pypi e package_name = Json (Some releases)
        \<and> (\<forall>rf \<in> set (desired_files e target_tag releases versions).
              packagetype rf \<noteq> ''bdist_wheel'' \<or> thirty_two_bit (filename rf))
        \<longrightarrow> fst (select_packages e target_tag [(package_name, versions)] lines_to_write w)
            = Inr lines_to_write)"
proof -
  have 1: "select_files target_tag files ([], []) =
     (map (\<lambda>rf. replicate indentation (CHR '' '') @ ''#  - '' @ filename rf) (filter (keeps target_tag) files),
      map (\<lambda>rf. ''--hash=sha256:'' @ digest_sha256 rf) (filter (keeps target_tag) files))"
    by (simp add: select_files_acc filename_line_def hash_line_def indentation_def numeral_2_eq_2)
  have 2: "filter (keeps target_tag) files = [] \<and> select_files target_tag files ([], []) = ([], [])"
    if "\<forall>rf \<in> set files. packagetype rf \<noteq> ''bdist_wheel'' \<or> thirty_two_bit (filename rf)"
    using unwanted_not_kept [OF that] by (simp add: select_files_acc)
  have 3: "select_packages e target_tag ((package_name, versions) # packages) lines_to_write w =
              select_packages e target_tag packages
                (if filter (keeps target_tag) (desired_files e target_tag releases versions) = []
                 then lines_to_write
                 else AList.update package_name
                        (block_text package_name (desired_version e target_tag versions)
                           (map (\<lambda>rf. ''  #  - '' @ filename rf)
                              (filter (keeps target_tag) (desired_files e target_tag releases versions)))
                           (map (\<lambda>rf. ''--hash=sha256:'' @ digest_sha256 rf)
                              (filter (keeps target_tag) (desired_files e target_tag releases versions)))
                         @ [newline])
                        lines_to_write)
                (w\<lparr>log := log w @ [Query package_name]\<rparr>)"
    if n: "package_name \<noteq> ''vtk''" "package_name \<noteq> ''simpleitk''"
      and p: "pypi e package_name = Json (Some releases)"
  proof -
    obtain cur lat where v: "versions = (cur, lat)" by (cases versions)
    have dv: "(if target_tag = interpreter_cpython_tag e then lat else cur)
                = desired_version e target_tag (cur, lat)"
      by (simp add: desired_version_def)
    have f: "map filename_line = map (\<lambda>rf. ''  #  - '' @ filename rf)"
      and h: "map hash_line = map (\<lambda>rf. ''--hash=sha256:'' @ digest_sha256 rf)"
      by (simp_all add: filename_line_def hash_line_def fun_eq_iff)
    show ?thesis
      unfolding v select_packages_step [OF n p] Let_def dv f h by simp
  qed
  have 4: "fst (select_packages e target_tag [(package_name, versions)] lines_to_write w)
            = Inr lines_to_write"
    if n: "package_name \<noteq> ''vtk''" "package_name \<noteq> ''simpleitk''"
      and p: "pypi e package_name = Json (Some releases)"
      and u: "\<forall>rf \<in> set (desired_files e target_tag releases versions).
              packagetype rf \<noteq> ''bdist_wheel'' \<or> thirty_two_bit (filename rf)"
  proof -
    obtain cur lat where v: "versions = (cur, lat)" by (cases versions)
    show ?thesis
      using select_packages_step [OF n p, of target_tag cur lat "[]" lines_to_write w]
            unwanted_not_kept [OF u, of target_tag]
      by (simp add: v Let_def)
  qed
  from 1 2 3 4 show ?thesis by blast
qed

definition sdist_file :: release_file where
  "sdist_file = \<lparr>python_version = ''source'', packagetype = ''sdist'',
                 filename = ''foo-2.0.0.tar.gz'', digest_sha256 = ''0a''\<rparr>"

definition win32_file :: release_file where
  "win32_file = \<lparr>python_version = ''cp311'', packagetype = ''bdist_wheel'',
                 filename = ''foo-2.0.0-cp311-cp311-win32.whl'', digest_sha256 = ''0b''\<rparr>"

definition amd64_file :: release_file where
  "amd64_file = \<lparr>python_version = ''cp311'', packagetype = ''bdist_wheel'',
                 filename = ''foo-2.0.0-cp311-cp311-win_amd64.whl'', digest_sha256 = ''deadbeef''\<rparr>"

definition only_unwanted_env :: env where
  "only_unwanted_env =
     \<lparr>pip_output = (\<lambda>p outdated. None),
      pypi = (\<lambda>n. Json (Some [''2.0.0'' \<mapsto> [sdist_file, win32_file]])),
      version_major = 3, version_minor = 11, default_directory = ''SuperBuild''\<rparr>"

definition one_wheel_env :: env where
  "one_wheel_env =
     \<lparr>pip_output = (\<lambda>p outdated. None),
      pypi = (\<lambda>n. Json (Some [''2.0.0'' \<mapsto> [win32_file, amd64_file]])),
      version_major = 3, version_minor = 11, default_directory = ''SuperBuild''\<rparr>"

definition empty_world :: world where
  "empty_world = \<lparr>walk = (\<lambda>d. []), content = (\<lambda>p. []), platform = Posix, log = []\<rparr>"

theorem release_selection_witness:
  "desired_files only_unwanted_env ''cp311'' [''2.0.0'' \<mapsto> [sdist_file, win32_file]] (''1.0.0'', ''2.0.0'')
     = [sdist_file, win32_file]
   \<and> packagetype sdist_file \<noteq> ''bdist_wheel'' \<and> thirty_two_bit (filename win32_file)
   \<and> select_files ''cp311'' [sdist_file, win32_file] ([], []) = ([], [])
   \<and> fst (select_packages only_unwanted_env ''cp311'' [(''foo'', (''1.0.0'', ''2.0.0''))] [] empty_world) = Inr []
   \<and> pypi one_wheel_env ''foo'' = Json (Some [''2.0.0'' \<mapsto> [win32_file, amd64_file]])
   \<and> filter (keeps ''cp311'')
       (desired_files one_wheel_env ''cp311'' [''2.0.0'' \<mapsto> [win32_file, amd64_file]] (''1.0.0'', ''2.0.0''))
     = [amd64_file]
   \<and> select_packages one_wheel_env ''cp311'' [(''foo'', (''1.0.0'', ''2.0.0''))] [] empty_world
     = (Inr [(''foo'', ''  foo==2.0.0 --hash=sha256:deadbeef'' @ [newline])],
        empty_world\<lparr>log := [Query ''foo'']\<rparr>)"
proof -
  have tag: "interpreter_cpython_tag only_unwanted_env = ''cp311''"
    unfolding only_unwanted_env_def by code_simp
  have d: "desired_files only_unwanted_env ''cp311'' [''2.0.0'' \<mapsto> [sdist_file, win32_file]] (''1.0.0'', ''2.0.0'')
     = [sdist_file, win32_file]"
    using tag by (simp add: desired_files_def desired_version_def)
  have s: "packagetype sdist_file \<noteq> ''bdist_wheel''" by (simp add: sdist_file_def)
  have t: "thirty_two_bit (filename win32_file)" by (simp add: win32_file_def thirty_two_bit_def)
  have p: "pypi only_unwanted_env ''foo'' = Json (Some [''2.0.0'' \<mapsto> [sdist_file, win32_file]])"
    by (simp add: only_unwanted_env_def)
  have n: "''foo'' \<noteq> ''vtk''" "''foo'' \<noteq> ''simpleitk''" by simp_all
  have h1: "\<forall>rf \<in> set [sdist_file, win32_file]. packagetype rf \<noteq> ''bdist_wheel'' \<or> thirty_two_bit (filename rf)"
    using s t by simp
  have h2: "\<forall>rf \<in> set (desired_files only_unwanted_env ''cp311'' [''2.0.0'' \<mapsto> [sdist_file, win32_file]] (''1.0.0'', ''2.0.0'')).
      packagetype rf \<noteq> ''bdist_wheel'' \<or> thirty_two_bit (filename rf)"
    unfolding d by (rule h1)
  note A = release_selection [of "''cp311''" "[sdist_file, win32_file]" "''foo''" only_unwanted_env
      "[''2.0.0'' \<mapsto> [sdist_file, win32_file]]" "(''1.0.0'', ''2.0.0'')" "[]" "[]" empty_world]
  from A h1 have a1: "select_files ''cp311'' [sdist_file, win32_file] ([], []) = ([], [])"
    by blast
  from A h2 p n
  have a2: "fst (select_packages only_unwanted_env ''cp311'' [(''foo'', (''1.0.0'', ''2.0.0''))] [] empty_world) = Inr []"
    by blast
  have tag1: "interpreter_cpython_tag one_wheel_env = ''cp311''"
    unfolding one_wheel_env_def by code_simp
  have p1: "pypi one_wheel_env ''foo'' = Json (Some [''2.0.0'' \<mapsto> [win32_file, amd64_file]])"
    by (simp add: one_wheel_env_def)
  have k: "filter (keeps ''cp311'')
       (desired_files one_wheel_env ''cp311'' [''2.0.0'' \<mapsto> [win32_file, amd64_file]] (''1.0.0'', ''2.0.0''))
     = [amd64_file]"
    using tag1 by (simp add: desired_files_def desired_version_def keeps_def win32_file_def amd64_file_def)
  have dv: "desired_version one_wheel_env ''cp311'' (''1.0.0'', ''2.0.0'') = ''2.0.0''"
    using tag1 by (simp add: desired_version_def)
  have b: "block_text ''foo'' ''2.0.0'' [''  #  - '' @ filename amd64_file]
             [''--hash=sha256:'' @ digest_sha256 amd64_file]
           = ''  foo==2.0.0 --hash=sha256:deadbeef''"
    by (simp add: block_text_def amd64_file_def indentation_def Let_def numeral_2_eq_2)
  note B = release_selection [of "''cp311''" "[sdist_file, win32_file]" "''foo''" one_wheel_env
      "[''2.0.0'' \<mapsto> [win32_file, amd64_file]]" "(''1.0.0'', ''2.0.0'')" "[]" "[]" empty_world,
      THEN conjunct2, THEN conjunct2, THEN conjunct1, THEN mp, OF conjI [OF n(1) conjI [OF n(2) p1]]]
  have b1: "select_packages one_wheel_env ''cp311'' [(''foo'', (''1.0.0'', ''2.0.0''))] [] empty_world
     = (Inr [(''foo'', ''  foo==2.0.0 --hash=sha256:deadbeef'' @ [newline])],
        empty_world\<lparr>log := [Query ''foo'']\<rparr>)"
    unfolding B k dv list.map b by (simp add: empty_world_def)
  show ?thesis
    by (intro conjI) (rule d, rule s, rule t, rule a1, rule a2, rule p1, rule k, rule b1)
qed

section \<open>The generated block\<close>

definition version_pin :: "string \<Rightarrow> string \<Rightarrow> string" where
  "version_pin package_name version = ''  '' @ package_name @ ''=='' @ version @ '' ''"

lemma join_Cons: "join sep (x # xs) = x @ concat (map (\<lambda>y. sep @ y) xs)"
  by (induction xs arbitrary: x) simp_all

lemma block_text_hashes:
  "block_text package_name version filenames (h # hs) =
     (if length filenames > 1
      then ''  # Hashes correspond to the following packages:''
           @ concat (map (\<lambda>f. newline # f) filenames) @ [newline]
      else [])
     @ version_pin package_name version @ h
     @ concat (map (\<lambda>x. [CHR '' '', backslash, newline]
                          @ replicate (length (version_pin package_name version)) (CHR '' '') @ x) hs)"
proof -
  have c: "(@) (c # s) = (\<lambda>x. c # s @ x)" for c :: char and s
    by (simp add: fun_eq_iff)
  show ?thesis
    by (simp add: block_text_def join_Cons version_pin_def indentation_def numeral_2_eq_2 Let_def c)
qed

text \<open>
  Claim C7.  When more than one release file survives for a package, the generated block is
  the comment header with one line per file, then the version pin followed on the same line
  by the first hash; every further hash stands on a line of its own, after a backslash
  continuation, behind exactly as many spaces as the version pin
  \<open>"  " + name + "==" + version + " "\<close> is long.
\<close>

theorem continuation_indentation:
  "package_name \<noteq> ''vtk'' \<and> package_name \<noteq> ''simpleitk''
   \<and> pypi e package_name = Json (Some releases)
   \<and> filter (keeps tag) (desired_files e tag releases versions) = first # second # others
   \<longrightarrow> fst (select_packages e tag [(package_name, versions)] [] w) =
         Inr [(package_name,
               ''  # Hashes correspond to the following packages:''
               @ concat (map (\<lambda>rf. newline # ''  #  - '' @ filename rf) (first # second # others))
               @ [newline]
               @ version_pin package_name (desired_version e tag versions)
               @ ''--hash=sha256:'' @ digest_sha256 first
               @ concat (map (\<lambda>rf. [CHR '' '', backslash, newline]
                                   @ replicate (length (version_pin package_name
                                                          (desired_version e tag versions))) (CHR '' '')
                                   @ ''--hash=sha256:'' @ digest_sha256 rf)
                             (second # others))
               @ [newline])]"
proof (intro impI, elim conjE)
  assume n: "package_name \<noteq> ''vtk''" "package_name \<noteq> ''simpleitk''"
    and p: "pypi e package_name = Json (Some releases)"
    and k: "filter (keeps tag) (desired_files e tag releases versions) = first # second # others"
  obtain cur lat where v: "versions = (cur, lat)" by (cases versions)
  have dv: "(if tag = interpreter_cpython_tag e then lat else cur) = desired_version e tag versions"
    by (simp add: desired_version_def v)
  show "fst (select_packages e tag [(package_name, versions)] [] w) =
         Inr [(package_name,
               ''  # Hashes correspond to the following packages:''
               @ concat (map (\<lambda>rf. newline # ''  #  - '' @ filename rf) (first # second # others))
               @ [newline]
               @ version_pin package_name (desired_version e tag versions)
               @ ''--hash=sha256:'' @ digest_sha256 first
               @ concat (map (\<lambda>rf. [CHR '' '', backslash, newline]
                                   @ replicate (length (version_pin package_name
                                                          (desired_version e tag versions))) (CHR '' '')
                                   @ ''--hash=sha256:'' @ digest_sha256 rf)
                             (second # others))
               @ [newline])]"
    unfolding v select_packages_step [OF n p] k [unfolded v] Let_def dv [unfolded v]
    by (simp add: block_text_hashes hash_line_def filename_line_def comp_def)
qed


definition linux_file :: release_file where
  "linux_file = \<lparr>python_version = ''cp311'', packagetype = ''bdist_wheel'',
                 filename = ''foo-2.0.0-cp311-cp311-manylinux_2_17_x86_64.whl'',
                 digest_sha256 = ''cafe''\<rparr>"

definition two_wheels_env :: env where
  "two_wheels_env =
     \<lparr>pip_output = (\<lambda>p outdated. None),
      pypi = (\<lambda>n. Json (Some [''2.0.0'' \<mapsto> [win32_file, amd64_file, linux_file]])),
      version_major = 3, version_minor = 11, default_directory = ''SuperBuild''\<rparr>"

definition foo_world :: world where
  "foo_world =
     \<lparr>walk = (\<lambda>d. if d = ''SuperBuild'' then [''SuperBuild/External_python-foo.cmake''] else []),
      content = (\<lambda>p. ''  # [foo]'' @ [newline] @ ''old text'' @ [newline] @ ''  # [/foo]'' @ [newline]),
      platform = Posix, log = []\<rparr>"

theorem continuation_indentation_witness:
  "filter (keeps ''cp311'')
     (desired_files two_wheels_env ''cp311'' [''2.0.0'' \<mapsto> [win32_file, amd64_file, linux_file]]
        (''1.0.0'', ''2.0.0'')) = amd64_file # linux_file # []
   \<and> length (version_pin ''foo'' ''2.0.0'') = 13
   \<and> fst (select_packages two_wheels_env ''cp311'' [(''foo'', (''1.0.0'', ''2.0.0''))] [] foo_world) =
         Inr [(''foo'',
               ''  # Hashes correspond to the following packages:'' @ [newline]
               @ ''  #  - foo-2.0.0-cp311-cp311-win_amd64.whl'' @ [newline]
               @ ''  #  - foo-2.0.0-cp311-cp311-manylinux_2_17_x86_64.whl'' @ [newline]
               @ ''  foo==2.0.0 --hash=sha256:deadbeef '' @ [backslash, newline]
               @ ''             --hash=sha256:cafe'' @ [newline])]
   \<and> content (snd (update_external_project_python_packages two_wheels_env
                      [(''foo'', (''1.0.0'', ''2.0.0''))] ''SuperBuild'' ''cp311'' foo_world))
         ''SuperBuild/External_python-foo.cmake'' =
       ''  # [foo]'' @ [newline]
       @ ''  # Hashes correspond to the following packages:'' @ [newline]
       @ ''  #  - foo-2.0.0-cp311-cp311-win_amd64.whl'' @ [newline]
       @ ''  #  - foo-2.0.0-cp311-cp311-manylinux_2_17_x86_64.whl'' @ [newline]
       @ ''  foo==2.0.0 --hash=sha256:deadbeef '' @ [backslash, newline]
       @ ''             --hash=sha256:cafe'' @ [newline]
       @ ''  # [/foo]'' @ [newline]"
proof -
  have tag: "interpreter_cpython_tag two_wheels_env = ''cp311''"
    unfolding two_wheels_env_def by code_simp
  have k: "filter (keeps ''cp311'')
     (desired_files two_wheels_env ''cp311'' [''2.0.0'' \<mapsto> [win32_file, amd64_file, linux_file]]
        (''1.0.0'', ''2.0.0'')) = amd64_file # linux_file # []"
    using tag
    by (simp add: desired_files_def desired_version_def keeps_def win32_file_def amd64_file_def linux_file_def)
  have p: "pypi two_wheels_env ''foo'' = Json (Some [''2.0.0'' \<mapsto> [win32_file, amd64_file, linux_file]])"
    by (simp add: two_wheels_env_def)
  have n: "''foo'' \<noteq> ''vtk''" "''foo'' \<noteq> ''simpleitk''" by simp_all
  have dv: "desired_version two_wheels_env ''cp311'' (''1.0.0'', ''2.0.0'') = ''2.0.0''"
    using tag by (simp add: desired_version_def)
  have l: "length (version_pin ''foo'' ''2.0.0'') = 13" by (simp add: version_pin_def)
  from continuation_indentation [of "''foo''" two_wheels_env
      "[''2.0.0'' \<mapsto> [win32_file, amd64_file, linux_file]]" "''cp311''" "(''1.0.0'', ''2.0.0'')"
      amd64_file linux_file "[]" foo_world] n p k
  have s: "fst (select_packages two_wheels_env ''cp311'' [(''foo'', (''1.0.0'', ''2.0.0''))] [] foo_world) =
         Inr [(''foo'',
               ''  # Hashes correspond to the following packages:'' @ [newline]
               @ ''  #  - foo-2.0.0-cp311-cp311-win_amd64.whl'' @ [newline]
               @ ''  #  - foo-2.0.0-cp311-cp311-manylinux_2_17_x86_64.whl'' @ [newline]
               @ ''  foo==2.0.0 --hash=sha256:deadbeef '' @ [backslash, newline]
               @ ''             --hash=sha256:cafe'' @ [newline])]"
    by (simp add: dv version_pin_def amd64_file_def linux_file_def numeral_eq_Suc)
  have u: "content (snd (update_external_project_python_packages two_wheels_env
                      [(''foo'', (''1.0.0'', ''2.0.0''))] ''SuperBuild'' ''cp311'' foo_world))
         ''SuperBuild/External_python-foo.cmake'' =
       ''  # [foo]'' @ [newline]
       @ ''  # Hashes correspond to the following packages:'' @ [newline]
       @ ''  #  - foo-2.0.0-cp311-cp311-win_amd64.whl'' @ [newline]
       @ ''  #  - foo-2.0.0-cp311-cp311-manylinux_2_17_x86_64.whl'' @ [newline]
       @ ''  foo==2.0.0 --hash=sha256:deadbeef '' @ [backslash, newline]
       @ ''             --hash=sha256:cafe'' @ [newline]
       @ ''  # [/foo]'' @ [newline]"
    unfolding two_wheels_env_def foo_world_def win32_file_def amd64_file_def linux_file_def
    by code_simp
  from k l s u show ?thesis by blast
qed


definition scenario_world :: world where
  "scenario_world =
     \<lparr>walk = (\<lambda>d. if d = ''SuperBuild'' then [''SuperBuild/External_python-foo.cmake''] else []),
      content = (\<lambda>p. ''# [foo]'' @ [newline] @ ''old text'' @ [newline] @ ''  # [/foo]''),
      platform = Posix, log = []\<rparr>"

text \<open>
  The claim C6 as it is written fails: for one surviving release file the generated block
  has no backslash continuation, and the rewritten file is not the one the claim expects.
\<close>

theorem single_artifact_block_counterexample:
  "fst (select_packages one_wheel_env ''cp311'' [(''foo'', (''1.0.0'', ''2.0.0''))] [] scenario_world)
     = Inr [(''foo'', ''  foo==2.0.0 --hash=sha256:deadbeef'' @ [newline])]
   \<and> ''  foo==2.0.0 --hash=sha256:deadbeef'' @ [newline]
       \<noteq> ''  foo==2.0.0 '' @ [backslash, newline] @ ''    --hash=sha256:deadbeef'' @ [newline]
   \<and> content (snd (update_external_project_python_packages one_wheel_env
                      [(''foo'', (''1.0.0'', ''2.0.0''))] ''SuperBuild'' ''cp311'' scenario_world))
         ''SuperBuild/External_python-foo.cmake''
       \<noteq> ''# [foo]'' @ [newline] @ ''  foo==2.0.0 '' @ [backslash, newline]
           @ ''    --hash=sha256:deadbeef'' @ [newline] @ ''  # [/foo]''"
proof -
  have 1: "fst (select_packages one_wheel_env ''cp311'' [(''foo'', (''1.0.0'', ''2.0.0''))] [] scenario_world)
     = Inr [(''foo'', ''  foo==2.0.0 --hash=sha256:deadbeef'' @ [newline])]"
    unfolding one_wheel_env_def scenario_world_def win32_file_def amd64_file_def by code_simp
  have 2: "''  foo==2.0.0 --hash=sha256:deadbeef'' @ [newline]
       \<noteq> ''  foo==2.0.0 '' @ [backslash, newline] @ ''    --hash=sha256:deadbeef'' @ [newline]"
    by (simp add: backslash_def)
  have 3: "content (snd (update_external_project_python_packages one_wheel_env
                      [(''foo'', (''1.0.0'', ''2.0.0''))] ''SuperBuild'' ''cp311'' scenario_world))
         ''SuperBuild/External_python-foo.cmake''
       \<noteq> ''# [foo]'' @ [newline] @ ''  foo==2.0.0 '' @ [backslash, newline]
           @ ''    --hash=sha256:deadbeef'' @ [newline] @ ''  # [/foo]''"
    unfolding one_wheel_env_def scenario_world_def win32_file_def amd64_file_def by code_simp
  from 1 2 3 show ?thesis by blast
qed

text \<open>
  Claim C6, as amended.  When exactly one release file survives for a package, the generated
  block is one line: the version pin, its trailing space and the hash, with no backslash
  continuation and no comment header.  With that block, the file of the scenario,
  \<open># [foo]\<close>, \<open>old text\<close>, \<open>  # [/foo]\<close>, is rewritten to \<open># [foo]\<close>,
  \<open>  foo==2.0.0 --hash=sha256:deadbeef\<close>, \<open>  # [/foo]\<close>.  The rewriter also turns the
  block text that the scenario gives (pin, backslash, newline, four spaces, hash) into the
  output that the scenario expects.
\<close>

theorem single_artifact_block:
  "(package_name \<noteq> ''vtk'' \<and> package_name \<noteq> ''simpleitk''
    \<and> pypi e package_name = Json (Some releases)
    \<and> filter (keeps tag) (desired_files e tag releases versions) = [only]
    \<longrightarrow> fst (select_packages e tag [(package_name, versions)] [] w) =
          Inr [(package_name,
                ''  '' @ package_name @ ''=='' @ desired_version e tag versions
                @ '' --hash=sha256:'' @ digest_sha256 only @ [newline])])
   \<and> content (snd (rewrite_files [''SuperBuild/External_python-foo.cmake'']
                      [(''foo'', ''  foo==2.0.0 --hash=sha256:deadbeef'' @ [newline])] scenario_world))
         ''SuperBuild/External_python-foo.cmake''
       = ''# [foo]'' @ [newline] @ ''  foo==2.0.0 --hash=sha256:deadbeef'' @ [newline] @ ''  # [/foo]''
   \<and> content (snd (rewrite_files [''SuperBuild/External_python-foo.cmake'']
                      [(''foo'', ''  foo==2.0.0 '' @ [backslash, newline]
                                 @ ''    --hash=sha256:deadbeef'' @ [newline])] scenario_world))
         ''SuperBuild/External_python-foo.cmake''
       = ''# [foo]'' @ [newline] @ ''  foo==2.0.0 '' @ [backslash, newline]
         @ ''    --hash=sha256:deadbeef'' @ [newline] @ ''  # [/foo]''"
proof -
  have 1: "fst (select_packages e tag [(package_name, versions)] [] w) =
          Inr [(package_name,
                ''  '' @ package_name @ ''=='' @ desired_version e tag versions
                @ '' --hash=sha256:'' @ digest_sha256 only @ [newline])]"
    if n: "package_name \<noteq> ''vtk''" "package_name \<noteq> ''simpleitk''"
      and p: "pypi e package_name = Json (Some releases)"
      and k: "filter (keeps tag) (desired_files e tag releases versions) = [only]"
  proof -
    obtain cur lat where v: "versions = (cur, lat)" by (cases versions)
    have dv: "(if tag = interpreter_cpython_tag e then lat else cur) = desired_version e tag versions"
      by (simp add: desired_version_def v)
    show ?thesis
      unfolding v select_packages_step [OF n p] k [unfolded v] Let_def dv [unfolded v]
      by (simp add: block_text_hashes hash_line_def filename_line_def version_pin_def)
  qed
  have 2: "content (snd (rewrite_files [''SuperBuild/External_python-foo.cmake'']
                      [(''foo'', ''  foo==2.0.0 --hash=sha256:deadbeef'' @ [newline])] scenario_world))
         ''SuperBuild/External_python-foo.cmake''
       = ''# [foo]'' @ [newline] @ ''  foo==2.0.0 --hash=sha256:deadbeef'' @ [newline] @ ''  # [/foo]''"
    unfolding scenario_world_def by code_simp
  have 3: "content (snd (rewrite_files [''SuperBuild/External_python-foo.cmake'']
                      [(''foo'', ''  foo==2.0.0 '' @ [backslash, newline]
                                 @ ''    --hash=sha256:deadbeef'' @ [newline])] scenario_world))
         ''SuperBuild/External_python-foo.cmake''
       = ''# [foo]'' @ [newline] @ ''  foo==2.0.0 '' @ [backslash, newline]
         @ ''    --hash=sha256:deadbeef'' @ [newline] @ ''  # [/foo]''"
    unfolding scenario_world_def by code_simp
  from 1 2 3 show ?thesis by blast
qed

theorem single_artifact_block_witness:
  "filter (keeps ''cp311'')
     (desired_files one_wheel_env ''cp311'' [''2.0.0'' \<mapsto> [win32_file, amd64_file]]
        (''1.0.0'', ''2.0.0'')) = [amd64_file]
   \<and> fst (select_packages one_wheel_env ''cp311'' [(''foo'', (''1.0.0'', ''2.0.0''))] [] scenario_world)
       = Inr [(''foo'', ''  foo==2.0.0 --hash=sha256:deadbeef'' @ [newline])]"
proof -
  have tag: "interpreter_cpython_tag one_wheel_env = ''cp311''"
    unfolding one_wheel_env_def by code_simp
  have k: "filter (keeps ''cp311'')
     (desired_files one_wheel_env ''cp311'' [''2.0.0'' \<mapsto> [win32_file, amd64_file]]
        (''1.0.0'', ''2.0.0'')) = [amd64_file]"
    using tag by (simp add: desired_files_def desired_version_def keeps_def win32_file_def amd64_file_def)
  have p: "pypi one_wheel_env ''foo'' = Json (Some [''2.0.0'' \<mapsto> [win32_file, amd64_file]])"
    by (simp add: one_wheel_env_def)
  have n: "''foo'' \<noteq> ''vtk''" "''foo'' \<noteq> ''simpleitk''" by simp_all
  have dv: "desired_version one_wheel_env ''cp311'' (''1.0.0'', ''2.0.0'') = ''2.0.0''"
    using tag by (simp add: desired_version_def)
  from single_artifact_block [of "''foo''" one_wheel_env "[''2.0.0'' \<mapsto> [win32_file, amd64_file]]"
      "''cp311''" "(''1.0.0'', ''2.0.0'')" amd64_file scenario_world] n p k
  have "fst (select_packages one_wheel_env ''cp311'' [(''foo'', (''1.0.0'', ''2.0.0''))] [] scenario_world)
       = Inr [(''foo'', ''  foo==2.0.0 --hash=sha256:deadbeef'' @ [newline])]"
    by (simp add: dv amd64_file_def)
  with k show ?thesis by blast
qed

section \<open>The listing parser\<close>

definition row_name :: "string \<Rightarrow> string" where
  "row_name line = hd (split_ws line)"

definition row_versions :: "string \<Rightarrow> string \<times> string" where
  "row_versions line =
     (split_ws line ! 1, if 3 \<le> length (split_ws line) then split_ws line ! 2 else split_ws line ! 1)"

definition listing :: "string list \<Rightarrow> packages" where
  "listing rows = foldl (\<lambda>packages row. AList.update (row_name row) (row_versions row) packages) [] rows"

lemma split_ws_blank: "list_all is_space s \<Longrightarrow> split_ws_acc [] s = []"
  by (induction s) simp_all

lemma parse_rows_well_formed:
  "\<forall>row \<in> set rows. 2 \<le> length (split_ws row) \<Longrightarrow>
   parse_rows (rows @ rest) packages =
     parse_rows rest (foldl (\<lambda>packages row. AList.update (row_name row) (row_versions row) packages)
                        packages rows)"
proof (induction rows arbitrary: packages)
  case Nil
  show ?case by simp
next
  case (Cons row rows)
  from Cons.prems have l: "2 \<le> length (split_ws row)" by simp
  then obtain n c others where s: "split_ws row = n # c # others"
    by (cases "split_ws row"; cases "tl (split_ws row)") auto
  have nb: "\<not> strip_is_empty row"
    using split_ws_blank [of row] s by (auto simp: strip_is_empty_def split_ws_def)
  have v: "row_versions row = (c, case others of [] \<Rightarrow> c | third # _ \<Rightarrow> third)"
    by (cases others) (simp_all add: row_versions_def s)
  have n: "row_name row = n" by (simp add: row_name_def s)
  from Cons.prems have "\<forall>row \<in> set rows. 2 \<le> length (split_ws row)" by simp
  from Cons.IH [OF this] show ?case
    by (simp add: nb s v n)
qed

lemma parse_rows_blank: "strip_is_empty line \<Longrightarrow> parse_rows (line # rest) packages = Inr packages"
  by simp

lemma listing_fold_map_of:
  "map_of (foldl (\<lambda>packages row. AList.update (row_name row) (row_versions row) packages) acc rows) =
     foldl (\<lambda>m row. m(row_name row \<mapsto> row_versions row)) (map_of acc) rows"
  by (induction rows arbitrary: acc) (simp_all add: update_conv')

lemma listing_fold_distinct:
  "distinct (map fst acc) \<Longrightarrow>
   distinct (map fst (foldl (\<lambda>packages row. AList.update (row_name row) (row_versions row) packages) acc rows))"
  by (induction rows arbitrary: acc) (simp_all add: distinct_update)

lemma fold_upd_dom:
  "dom (foldl (\<lambda>m row. m(row_name row \<mapsto> row_versions row)) m rows) = dom m \<union> row_name ` set rows"
  by (induction rows arbitrary: m) auto

lemma fold_upd_last:
  "row_name row \<notin> row_name ` set after \<Longrightarrow>
   foldl (\<lambda>m row. m(row_name row \<mapsto> row_versions row)) m (before @ [row] @ after) (row_name row)
     = Some (row_versions row)"
proof (induction after arbitrary: m before rule: rev_induct)
  case Nil
  show ?case by simp
next
  case (snoc x xs)
  from snoc.prems have "row_name row \<notin> row_name ` set xs" and "row_name x \<noteq> row_name row"
    by auto
  with snoc.IH [of m before] show ?case
    by (simp del: append_assoc add: append_assoc [symmetric])
qed

lemma listing_length: "length (listing rows) = card (row_name ` set rows)"
proof -
  have d: "distinct (map fst (listing rows))"
    unfolding listing_def by (rule listing_fold_distinct) simp
  have "length (listing rows) = length (map fst (listing rows))" by simp
  also have "\<dots> = card (set (map fst (listing rows)))"
    using d by (simp only: distinct_card)
  also have "set (map fst (listing rows)) = dom (map_of (listing rows))"
    by (simp add: dom_map_of_conv_image_fst)
  also have "\<dots> = row_name ` set rows"
    unfolding listing_def listing_fold_map_of fold_upd_dom by simp
  finally show ?thesis .
qed

lemma listing_last:
  "row_name row \<notin> row_name ` set after \<Longrightarrow>
   map_of (listing (before @ [row] @ after)) (row_name row) = Some (row_versions row)"
  unfolding listing_def listing_fold_map_of by (rule fold_upd_last)


text \<open>
  Claim C2, as amended.  The listing is two header lines, then N rows with at least two
  whitespace-separated tokens each, then one more line, which is never parsed (for the
  output of pip it is the empty string after the last newline).  The result is the mapping
  built row by row, a later row replacing an earlier one of the same name: it has as many
  entries as the rows have distinct names (N when the names differ); the last row of a name
  with tokens \<open>name A B ...\<close> maps the name to \<open>(A, B)\<close> and with tokens \<open>name A\<close> to
  \<open>(A, A)\<close>; and the rows after the first blank line are ignored.
\<close>

theorem pip_list_parsed:
  "(\<forall>row \<in> set rows. 2 \<le> length (split_ws row)) \<longrightarrow>
     parse_pip_list_output (header1 # header2 # rows @ [final]) = Inr (listing rows)
     \<and> (strip_is_empty blank \<longrightarrow>
          parse_pip_list_output (header1 # header2 # rows @ blank # ignored @ [final])
            = Inr (listing rows))
     \<and> length (listing rows) = card (row_name ` set rows)
     \<and> (distinct (map row_name rows) \<longrightarrow> length (listing rows) = length rows)
     \<and> (rows = before @ [row] @ after \<and> row_name row \<notin> row_name ` set after
          \<and> split_ws row = name # a # b # others
          \<longrightarrow> map_of (listing rows) name = Some (a, b))
     \<and> (rows = before @ [row] @ after \<and> row_name row \<notin> row_name ` set after
          \<and> split_ws row = [name, a]
          \<longrightarrow> map_of (listing rows) name = Some (a, a))"
proof (intro impI conjI)
  assume wf: "\<forall>row \<in> set rows. 2 \<le> length (split_ws row)"
  have t: "take (length rows + 2) (header1 # header2 # rows @ [final]) = header1 # header2 # rows"
    by simp
  show "parse_pip_list_output (header1 # header2 # rows @ [final]) = Inr (listing rows)"
    using parse_rows_well_formed [OF wf, of "[]" "[]"]
    by (simp add: parse_pip_list_output_def listing_def)
  show "parse_pip_list_output (header1 # header2 # rows @ blank # ignored @ [final])
            = Inr (listing rows)" if "strip_is_empty blank"
  proof -
    have "take (length rows + 2 + length ignored + 1) (header1 # header2 # rows @ blank # ignored @ [final])
            = header1 # header2 # rows @ blank # ignored"
      by simp
    then show ?thesis
      using parse_rows_well_formed [OF wf, of "blank # ignored" "[]"] that
      by (simp add: parse_pip_list_output_def listing_def)
  qed
  show "length (listing rows) = card (row_name ` set rows)"
    by (rule listing_length)
  show "length (listing rows) = length rows" if "distinct (map row_name rows)"
    using that distinct_card [of "map row_name rows"] by (simp add: listing_length)
  show "map_of (listing rows) name = Some (a, b)"
    if "rows = before @ [row] @ after \<and> row_name row \<notin> row_name ` set after
          \<and> split_ws row = name # a # b # others"
  proof -
    from that have r: "rows = before @ [row] @ after"
      and n: "row_name row \<notin> row_name ` set after"
      and s: "split_ws row = name # a # b # others" by simp_all
    have "row_name row = name" and "row_versions row = (a, b)"
      by (simp_all add: row_name_def row_versions_def s)
    with listing_last [OF n, of before] r show ?thesis by simp
  qed
  show "map_of (listing rows) name = Some (a, a)"
    if "rows = before @ [row] @ after \<and> row_name row \<notin> row_name ` set after
          \<and> split_ws row = [name, a]"
  proof -
    from that have r: "rows = before @ [row] @ after"
      and n: "row_name row \<notin> row_name ` set after"
      and s: "split_ws row = [name, a]" by simp_all
    have "row_name row = name" and "row_versions row = (a, a)"
      by (simp_all add: row_name_def row_versions_def s)
    with listing_last [OF n, of before] r show ?thesis by simp
  qed
qed

text \<open>
  The claim C2 as it is written makes the trailing blank line optional.  Without it the last
  row is not parsed: a listing of two header lines and one row gives the empty mapping,
  also when it comes from splitting a text that does not end with a newline.
\<close>

theorem pip_list_parsed_counterexample:
  "2 \<le> length (split_ws ''foo 1.0 2.0'')
   \<and> parse_pip_list_output [''Package Version Latest'', ''------- ------- ------'', ''foo 1.0 2.0''] = Inr []
   \<and> parse_pip_list_output
        (split_nl (''Package Version Latest'' @ [newline] @ ''------- ------- ------'' @ [newline]
                   @ ''foo 1.0 2.0'')) = Inr []"
  by code_simp

theorem pip_list_parsed_witness:
  "2 \<le> length (split_ws ''numpy      1.24.0  1.26.4 wheel'')
   \<and> 2 \<le> length (split_ws ''requests   2.31.0'')
   \<and> strip_is_empty []
   \<and> parse_pip_list_output
        [''Package    Version Latest Type'', ''---------- ------- ------ -----'',
         ''numpy      1.24.0  1.26.4 wheel'', ''requests   2.31.0'', []]
       = Inr [(''numpy'', (''1.24.0'', ''1.26.4'')), (''requests'', (''2.31.0'', ''2.31.0''))]
   \<and> parse_pip_list_output
        [''Package    Version Latest Type'', ''---------- ------- ------ -----'',
         ''numpy      1.24.0  1.26.4 wheel'', ''requests   2.31.0'', [], ''scipy 1.0 2.0'', []]
       = Inr [(''numpy'', (''1.24.0'', ''1.26.4'')), (''requests'', (''2.31.0'', ''2.31.0''))]
   \<and> map_of (listing [''numpy      1.24.0  1.26.4 wheel'', ''requests   2.31.0'']) ''numpy''
       = Some (''1.24.0'', ''1.26.4'')
   \<and> map_of (listing [''numpy      1.24.0  1.26.4 wheel'', ''requests   2.31.0'']) ''requests''
       = Some (''2.31.0'', ''2.31.0'')
   \<and> length (listing [''numpy      1.24.0  1.26.4 wheel'', ''requests   2.31.0'']) = 2"
proof -
  let ?r1 = "''numpy      1.24.0  1.26.4 wheel''" and ?r2 = "''requests   2.31.0''"
  let ?h1 = "''Package    Version Latest Type''" and ?h2 = "''---------- ------- ------ -----''"
  have s1: "split_ws ?r1 = ''numpy'' # ''1.24.0'' # ''1.26.4'' # [''wheel'']" by code_simp
  have s2: "split_ws ?r2 = [''requests'', ''2.31.0'']" by code_simp
  have wf: "\<forall>row \<in> set [?r1, ?r2]. 2 \<le> length (split_ws row)" by (simp add: s1 s2)
  have b: "strip_is_empty []" by (simp add: strip_is_empty_def)
  have l: "listing [?r1, ?r2] = [(''numpy'', (''1.24.0'', ''1.26.4'')), (''requests'', (''2.31.0'', ''2.31.0''))]"
    by (simp add: listing_def row_name_def row_versions_def s1 s2)
  have n1: "row_name ?r1 \<notin> row_name ` set [?r2]" by (simp add: row_name_def s1 s2)
  have n2: "row_name ?r2 \<notin> row_name ` set []" by simp
  have d: "distinct (map row_name [?r1, ?r2])" by (simp add: row_name_def s1 s2)
  note A = pip_list_parsed [of "[?r1, ?r2]" ?h1 ?h2 "[]" "[]" "[''scipy 1.0 2.0'']" "[]" ?r1 "[?r2]"
      "''numpy''" "''1.24.0''" "''1.26.4''" "[''wheel'']"]
  note B = pip_list_parsed [of "[?r1, ?r2]" ?h1 ?h2 "[]" "[]" "[''scipy 1.0 2.0'']" "[?r1]" ?r2 "[]"
      "''requests''" "''2.31.0''" "''2.31.0''" "[]"]
  from A wf b n1 s1 d have
    1: "parse_pip_list_output [?h1, ?h2, ?r1, ?r2, []] = Inr (listing [?r1, ?r2])" and
    2: "parse_pip_list_output [?h1, ?h2, ?r1, ?r2, [], ''scipy 1.0 2.0'', []] = Inr (listing [?r1, ?r2])" and
    3: "map_of (listing [?r1, ?r2]) ''numpy'' = Some (''1.24.0'', ''1.26.4'')" and
    5: "length (listing [?r1, ?r2]) = 2"
    by simp_all
  from B wf n2 s2 have
    4: "map_of (listing [?r1, ?r2]) ''requests'' = Some (''2.31.0'', ''2.31.0'')"
    by simp
  from s1 s2 b 1 2 3 4 5 show ?thesis unfolding l by simp
qed

section \<open>The excluded packages\<close>

definition excluded :: "string \<Rightarrow> bool" where
  "excluded package_name = (package_name = ''vtk'' \<or> package_name = ''simpleitk'')"

lemma select_packages_excluded:
  "excluded package_name \<Longrightarrow>
   select_packages e tag ((package_name, versions) # ps) ltw w = select_packages e tag ps ltw w"
  by (cases versions) (auto simp: excluded_def)

lemma select_packages_unreachable:
  "\<not> excluded package_name \<Longrightarrow> pypi e package_name = Unreachable \<Longrightarrow>
   select_packages e tag ((package_name, versions) # ps) ltw w =
     (Inl RequestError, w\<lparr>log := log w @ [Query package_name]\<rparr>)"
  by (cases versions) (auto simp: excluded_def)

lemma select_packages_no_releases:
  "\<not> excluded package_name \<Longrightarrow> pypi e package_name = Json None \<Longrightarrow>
   select_packages e tag ((package_name, versions) # ps) ltw w =
     (Inl KeyError, w\<lparr>log := log w @ [Query package_name]\<rparr>)"
  by (cases versions) (auto simp: excluded_def)

declare select_packages.simps(2) [simp del]










section \<open>Validation before any update\<close>

definition chosen_directory :: "args \<Rightarrow> env \<Rightarrow> string" where
  "chosen_directory a e =
     (case arg_search_directory a of
        None \<Rightarrow> default_directory e
      | Some d \<Rightarrow> if d = [] then default_directory e else d)"

definition writes :: "event list \<Rightarrow> event list" where
  "writes evs = filter (\<lambda>ev. case ev of Write p t \<Rightarrow> True | _ \<Rightarrow> False) evs"

lemma validate_eq:
  "validate_external_project_python_package_hints directory w =
     (concat (map (\<lambda>p. file_mismatches p (text_of w p)) (walk w directory)),
      w\<lparr>log := log w @ map Read (walk w directory)\<rparr>)"
  by (simp add: validate_external_project_python_package_hints_def validate_files_eq
      external_project_filepaths_def)

lemma select_packages_continue:
  assumes "\<not> excluded m" and "pypi e m = Json (Some releases)"
  shows "\<exists>ltw1. select_packages e tag ((m, versions) # ps) ltw w
                  = select_packages e tag ps ltw1 (w\<lparr>log := log w @ [Query m]\<rparr>)"
proof -
  obtain cur lat where v: "versions = (cur, lat)" by (cases versions)
  from assms(1) have m: "m \<noteq> ''vtk''" "m \<noteq> ''simpleitk''" by (simp_all add: excluded_def)
  show ?thesis
  proof (cases "filter (keeps tag) (desired_files e tag releases (cur, lat)) = []")
    case True
    then show ?thesis
      unfolding v select_packages_step [OF m assms(2)] Let_def by (intro exI [of _ ltw]) simp
  next
    case False
    then show ?thesis
      unfolding v select_packages_step [OF m assms(2)] Let_def by (simp only: if_False) blast
  qed
qed

lemma select_packages_log:
  "\<exists>evs. log (snd (select_packages e tag ps ltw w)) = log w @ evs"
proof (induction ps arbitrary: ltw w)
  case Nil
  show ?case by simp
next
  case (Cons p ps)
  obtain m cur lat where p: "p = (m, (cur, lat))" by (cases p) auto
  show ?case
  proof (cases "excluded m")
    case True
    then show ?thesis using Cons.IH by (simp add: p select_packages_excluded)
  next
    case False
    then have m: "m \<noteq> ''vtk''" "m \<noteq> ''simpleitk''" by (simp_all add: excluded_def)
    show ?thesis
    proof (cases "pypi e m")
      case Unreachable
      then show ?thesis using False by (simp add: p select_packages_unreachable)
    next
      case (Json r)
      show ?thesis
      proof (cases r)
        case None
        then show ?thesis using False Json by (simp add: p select_packages_no_releases)
      next
        case (Some releases)
        with Json have j: "pypi e m = Json (Some releases)" by simp
        from select_packages_continue [OF False j] obtain ltw1 where
          s: "select_packages e tag (p # ps) ltw w
                = select_packages e tag ps ltw1 (w\<lparr>log := log w @ [Query m]\<rparr>)"
          unfolding p by blast
        from Cons.IH [of ltw1 "w\<lparr>log := log w @ [Query m]\<rparr>"] show ?thesis
          unfolding s by auto
      qed
    qed
  qed
qed

lemma rewrite_packages_log:
  "\<exists>evs. log (snd (rewrite_packages filepath ls file_text w)) = log w @ evs"
proof (induction ls arbitrary: file_text w)
  case Nil
  show ?case by simp
next
  case (Cons l ls)
  obtain package_name updated_line where l: "l = (package_name, updated_line)" by (cases l)
  show ?case
  proof (cases "re_sub_block package_name (replacement package_name updated_line) file_text")
    case (Inl err)
    then show ?thesis by (simp add: l)
  next
    case (Inr new_text)
    with Cons.IH [of new_text "write_file filepath new_text w"] show ?thesis
      by (auto simp: l write_file_def)
  qed
qed

lemma rewrite_files_log:
  "\<exists>evs. log (snd (rewrite_files fps ls w)) = log w @ evs"
proof (induction fps arbitrary: w)
  case Nil
  show ?case by simp
next
  case (Cons filepath fps)
  let ?w1 = "w\<lparr>log := log w @ [Read filepath]\<rparr>"
  obtain r w2 where rp: "rewrite_packages filepath ls (text_of w filepath) ?w1 = (r, w2)"
    by (cases "rewrite_packages filepath ls (text_of w filepath) ?w1")
  from rewrite_packages_log [of filepath ls "text_of w filepath" ?w1] rp
  obtain evs where w2: "log w2 = log w @ [Read filepath] @ evs" by auto
  show ?case
  proof (cases r)
    case None
    with Cons.IH [of w2] rp w2 show ?thesis by (auto simp: read_file_def text_of_def)
  next
    case (Some err)
    with rp w2 show ?thesis by (simp add: read_file_def text_of_def)
  qed
qed

lemma update_log:
  "\<exists>evs. log (snd (update_external_project_python_packages e ps directory tag w)) = log w @ evs"
proof -
  obtain r w1 where s: "select_packages e tag ps [] w = (r, w1)"
    by (cases "select_packages e tag ps [] w")
  from select_packages_log [of e tag ps "[]" w] s obtain evs where w1: "log w1 = log w @ evs"
    by auto
  show ?thesis
  proof (cases r)
    case (Inl err)
    with s w1 show ?thesis by (simp add: update_external_project_python_packages_def)
  next
    case (Inr ltw)
    from rewrite_files_log [of "external_project_filepaths w1 directory" ltw w1]
    obtain evs2 where "log (snd (rewrite_files (external_project_filepaths w1 directory) ltw w1)) = log w1 @ evs2"
      by auto
    with Inr s w1 show ?thesis by (simp add: update_external_project_python_packages_def)
  qed
qed

lemma execute_pip_list_log:
  "\<exists>evs. log (snd (execute_pip_list e installation_path outdated w)) = log w @ evs"
  by (simp add: execute_pip_list_def Let_def split: option.splits)


definition found_mismatches :: "args \<Rightarrow> env \<Rightarrow> world \<Rightarrow> (string \<times> string \<times> string) list" where
  "found_mismatches a e w =
     fst (validate_external_project_python_package_hints (chosen_directory a e) w)"

definition validated :: "args \<Rightarrow> env \<Rightarrow> world \<Rightarrow> world" where
  "validated a e w = w\<lparr>log := log w @ map Read (walk w (chosen_directory a e))\<rparr>"

lemma main_unfold:
  "main a e w =
     (let (mismatches, w1) =
            validate_external_project_python_package_hints (chosen_directory a e) w
      in if arg_validate a \<or> length mismatches > 0
         then (if length mismatches = 0 then SystemExit_0
               else SystemExit_message (hint_validation_mismatch_summary mismatches), w1)
         else
           (let tag = (case arg_cpython_tag a of
                         None \<Rightarrow> interpreter_cpython_tag e
                       | Some t \<Rightarrow> if t = [] then interpreter_cpython_tag e else t);
                (listing, w2) =
                  execute_pip_list e (arg_path a)
                    (\<not> arg_from_installed_packages a \<and> tag = interpreter_cpython_tag e) w1
            in (case listing of
                  Inl err \<Rightarrow> (Raised err, w2)
                | Inr pip_lines \<Rightarrow>
                    (case parse_pip_list_output pip_lines of
                       Inl err \<Rightarrow> (Raised err, w2)
                     | Inr packages_to_update \<Rightarrow>
                         (case update_external_project_python_packages e packages_to_update
                                 (chosen_directory a e) tag w2 of
                            (Some err, w3) \<Rightarrow> (Raised err, w3)
                          | (None, w3) \<Rightarrow> (Returned, w3))))))"
  unfolding chosen_directory_def main_def get_installed_packages_def get_outdated_packages_def
  by (simp add: Let_def validate_eq)

lemma main_gate:
  "arg_validate a \<or> found_mismatches a e w \<noteq> [] \<Longrightarrow>
   main a e w =
     (if found_mismatches a e w = [] then SystemExit_0
      else SystemExit_message (hint_validation_mismatch_summary (found_mismatches a e w)),
      validated a e w)"
  by (auto simp: main_unfold validate_eq found_mismatches_def validated_def Let_def)

lemma main_continues:
  assumes "\<not> (arg_validate a \<or> found_mismatches a e w \<noteq> [])"
  shows "\<exists>evs. log (snd (main a e w)) = log (validated a e w) @ evs"
proof -
  define tag where "tag = (case arg_cpython_tag a of
                         None \<Rightarrow> interpreter_cpython_tag e
                       | Some t \<Rightarrow> if t = [] then interpreter_cpython_tag e else t)"
  define outdated where
    "outdated = (\<not> arg_from_installed_packages a \<and> tag = interpreter_cpython_tag e)"
  obtain listing w2 where x: "execute_pip_list e (arg_path a) outdated (validated a e w) = (listing, w2)"
    by (cases "execute_pip_list e (arg_path a) outdated (validated a e w)")
  from execute_pip_list_log [of e "arg_path a" outdated "validated a e w"] x
  obtain evs where w2: "log w2 = log (validated a e w) @ evs" by auto
  have m: "main a e w =
     (case listing of
        Inl err \<Rightarrow> (Raised err, w2)
      | Inr pip_lines \<Rightarrow>
          (case parse_pip_list_output pip_lines of
             Inl err \<Rightarrow> (Raised err, w2)
           | Inr packages_to_update \<Rightarrow>
               (case update_external_project_python_packages e packages_to_update
                       (chosen_directory a e) tag w2 of
                  (Some err, w3) \<Rightarrow> (Raised err, w3)
                | (None, w3) \<Rightarrow> (Returned, w3))))"
    using assms x [unfolded outdated_def tag_def] unfolding tag_def
    by (simp add: main_unfold validate_eq found_mismatches_def validated_def Let_def)
  show ?thesis
  proof (cases listing)
    case (Inl err)
    with m w2 show ?thesis by simp
  next
    case l: (Inr pip_lines)
    show ?thesis
    proof (cases "parse_pip_list_output pip_lines")
      case (Inl err)
      with m l w2 show ?thesis by simp
    next
      case p: (Inr packages_to_update)
      obtain r w3 where u: "update_external_project_python_packages e packages_to_update
                       (chosen_directory a e) tag w2 = (r, w3)"
        by (cases "update_external_project_python_packages e packages_to_update
                       (chosen_directory a e) tag w2")
      from update_log [of e packages_to_update "chosen_directory a e" tag w2] u
      obtain evs2 where "log w3 = log w2 @ evs2" by auto
      with m l p u w2 show ?thesis by (cases r) simp_all
    qed
  qed
qed

text \<open>
  Claim C3.  Every run of \<open>main\<close> begins with the validator: the reads of the files of
  the search directory are the first events it adds to the log.  When validate-only mode
  is requested or a mismatch exists, \<open>main\<close> stops there with \<open>sys.exit\<close>: the status
  is non-zero exactly when there is a mismatch (the summary is the exit message) and zero
  otherwise, no file has changed and the log has gained nothing but the validator's reads.
\<close>

theorem validation_gate:
  "(\<exists>events. log (snd (main a e w)) = log w @ map Read (walk w (chosen_directory a e)) @ events)
   \<and> (arg_validate a \<or> found_mismatches a e w \<noteq> [] \<longrightarrow>
        fst (main a e w) =
          (if found_mismatches a e w = [] then SystemExit_0
           else SystemExit_message (hint_validation_mismatch_summary (found_mismatches a e w)))
        \<and> (exit_status (fst (main a e w)) \<noteq> 0 \<longleftrightarrow> found_mismatches a e w \<noteq> [])
        \<and> content (snd (main a e w)) = content w
        \<and> log (snd (main a e w)) = log w @ map Read (walk w (chosen_directory a e))
        \<and> writes (log (snd (main a e w))) = writes (log w))"
proof (intro conjI impI)
  show "\<exists>events. log (snd (main a e w)) = log w @ map Read (walk w (chosen_directory a e)) @ events"
  proof (cases "arg_validate a \<or> found_mismatches a e w \<noteq> []")
    case True
    from main_gate [OF this] show ?thesis by (simp add: validated_def)
  next
    case False
    from main_continues [OF this] show ?thesis by (simp add: validated_def)
  qed
next
  assume g: "arg_validate a \<or> found_mismatches a e w \<noteq> []"
  note m = main_gate [OF g]
  show "fst (main a e w) =
          (if found_mismatches a e w = [] then SystemExit_0
           else SystemExit_message (hint_validation_mismatch_summary (found_mismatches a e w)))"
    by (simp add: m)
  show "exit_status (fst (main a e w)) \<noteq> 0 \<longleftrightarrow> found_mismatches a e w \<noteq> []"
    by (simp add: m)
  show "content (snd (main a e w)) = content w"
    by (simp add: m validated_def)
  show "log (snd (main a e w)) = log w @ map Read (walk w (chosen_directory a e))"
    by (simp add: m validated_def)
  show "writes (log (snd (main a e w))) = writes (log w)"
    by (simp add: m validated_def writes_def filter_empty_conv comp_def)
qed


definition update_args :: args where
  "update_args =
     \<lparr>arg_search_directory = Some ''SuperBuild'', arg_cpython_tag = None,
      arg_from_installed_packages = False, arg_validate = False, arg_path = None\<rparr>"

theorem validation_gate_witness:
  "found_mismatches update_args one_wheel_env pairs_world
     = [(''SuperBuild/b.cmake'', ''requests'', ''urllib3'')]
   \<and> fst (main update_args one_wheel_env pairs_world)
       = SystemExit_message (''SuperBuild/b.cmake'' @ [newline] @ ''  requests != urllib3'')
   \<and> exit_status (fst (main update_args one_wheel_env pairs_world)) = 1
   \<and> content (snd (main update_args one_wheel_env pairs_world)) = content pairs_world
   \<and> log (snd (main update_args one_wheel_env pairs_world))
       = [Read ''SuperBuild/a.cmake'', Read ''SuperBuild/b.cmake'']"
proof -
  have d: "chosen_directory update_args one_wheel_env = ''SuperBuild''"
    by (simp add: chosen_directory_def update_args_def)
  have f: "found_mismatches update_args one_wheel_env pairs_world
     = [(''SuperBuild/b.cmake'', ''requests'', ''urllib3'')]"
    unfolding found_mismatches_def d pairs_world_def good_text_def bad_text_def by code_simp
  then have g: "arg_validate update_args \<or> found_mismatches update_args one_wheel_env pairs_world \<noteq> []"
    by simp
  have s: "hint_validation_mismatch_summary [(''SuperBuild/b.cmake'', ''requests'', ''urllib3'')]
             = ''SuperBuild/b.cmake'' @ [newline] @ ''  requests != urllib3''"
    by (simp add: hint_validation_mismatch_summary_def newline_def)
  have w: "walk pairs_world ''SuperBuild'' = [''SuperBuild/a.cmake'', ''SuperBuild/b.cmake'']"
    and l: "log pairs_world = []"
    by (simp_all add: pairs_world_def)
  from validation_gate [of update_args one_wheel_env pairs_world] g
  have 1: "fst (main update_args one_wheel_env pairs_world) =
          (if found_mismatches update_args one_wheel_env pairs_world = [] then SystemExit_0
           else SystemExit_message (hint_validation_mismatch_summary
                  (found_mismatches update_args one_wheel_env pairs_world)))"
    and 2: "content (snd (main update_args one_wheel_env pairs_world)) = content pairs_world"
    and 3: "log (snd (main update_args one_wheel_env pairs_world))
              = log pairs_world @ map Read (walk pairs_world (chosen_directory update_args one_wheel_env))"
    by blast+
  from 1 have 4: "fst (main update_args one_wheel_env pairs_world)
       = SystemExit_message (''SuperBuild/b.cmake'' @ [newline] @ ''  requests != urllib3'')"
    unfolding f s by simp
  then have 5: "exit_status (fst (main update_args one_wheel_env pairs_world)) = 1"
    by simp
  from 3 have 6: "log (snd (main update_args one_wheel_env pairs_world))
       = [Read ''SuperBuild/a.cmake'', Read ''SuperBuild/b.cmake'']"
    unfolding d w l by simp
  from f 4 5 2 6 show ?thesis by blast
qed


end
